theory Spec2Isabelle
  imports Complex_Main
begin

section \<open>Least-squares fitting of fluorescence decays: the notebook's own code\<close>

text \<open>
  The notebook \<^verbatim>\<open>2017/lectures/03-scipy.ipynb\<close> defines a handful of Python functions
  (\<^verbatim>\<open>func\<close>, \<^verbatim>\<open>leastsq_function\<close>, \<^verbatim>\<open>error_analysis\<close>) and a preprocessing step that
  is repeated in two cells. They are embedded here as HOL functions.

  Conventions of the embedding:
  \<^item> a NumPy \<^verbatim>\<open>float64\<close> is a \<^typ>\<open>real\<close>: arithmetic is exact, there is no rounding, no
    \<^verbatim>\<open>inf\<close> and no \<^verbatim>\<open>nan\<close>. Where NumPy divides by zero it warns and yields \<^verbatim>\<open>inf\<close> or
    \<^verbatim>\<open>nan\<close>, which the reals do not have; the results below are about inputs whose
    divisors are not zero, or equate two expressions with the same divisions. One effect
    of the format is modelled, where a claim depends on it: the square of a small
    \<^verbatim>\<open>float64\<close> underflows to zero;
  \<^item> a one-dimensional array is a list, a two-dimensional array a record of its column
    count and its rows;
  \<^item> a Python exception is the left summand of a sum type, and \<open>bnd\<close> sequences two
    computations, stopping at the first exception;
  \<^item> the notebook redefines \<^verbatim>\<open>func\<close> and \<^verbatim>\<open>leastsq_function\<close> several times; each
    definition keeps its name with a suffix saying which one it is.
\<close>

subsection \<open>Exceptions\<close>

datatype py_error =
    IndexError
  | ValueError
  | KeyError
  | OSError
  | UnpicklingError
  | LinAlgError

definition bnd :: "py_error + 'a \<Rightarrow> ('a \<Rightarrow> py_error + 'b) \<Rightarrow> py_error + 'b" where
  "bnd m f = (case m of Inl e \<Rightarrow> Inl e | Inr v \<Rightarrow> f v)"

subsection \<open>One-dimensional arrays\<close>

text \<open>\<^verbatim>\<open>a[i]\<close> for a constant, non-negative index: IndexError out of range.\<close>

definition getitem :: "'a list \<Rightarrow> nat \<Rightarrow> py_error + 'a" where
  "getitem xs i = (if i < length xs then Inr (xs ! i) else Inl IndexError)"

text \<open>
  A binary operator on two one-dimensional arrays, with NumPy's broadcasting: equal
  shapes combine elementwise, a shape of one element is stretched, anything else raises
  \<^verbatim>\<open>ValueError: operands could not be broadcast together\<close>.
\<close>

definition np_binop :: "('a \<Rightarrow> 'b \<Rightarrow> 'c) \<Rightarrow> 'a list \<Rightarrow> 'b list \<Rightarrow> py_error + 'c list" where
  "np_binop f xs ys =
     (if length xs = length ys then Inr (map2 f xs ys)
      else if length xs = 1 then Inr (map (f (hd xs)) ys)
      else if length ys = 1 then Inr (map (\<lambda>x. f x (hd ys)) xs)
      else Inl ValueError)"

text \<open>Unary operators and operators between a scalar and an array never raise.\<close>

definition np_neg :: "real list \<Rightarrow> real list" where
  "np_neg xs = map uminus xs"

definition np_exp :: "real list \<Rightarrow> real list" where
  "np_exp xs = map exp xs"

definition expm1 :: "real \<Rightarrow> real" where
  "expm1 v = exp v - 1"

definition np_expm1 :: "real list \<Rightarrow> real list" where
  "np_expm1 xs = map expm1 xs"

definition np_sqrt :: "real list \<Rightarrow> real list" where
  "np_sqrt xs = map sqrt xs"

definition scalar_mul :: "real \<Rightarrow> real list \<Rightarrow> real list" where
  "scalar_mul a xs = map (\<lambda>v. a * v) xs"

definition div_scalar :: "real list \<Rightarrow> real \<Rightarrow> real list" where
  "div_scalar xs a = map (\<lambda>v. v / a) xs"

definition sub_scalar :: "real list \<Rightarrow> real \<Rightarrow> real list" where
  "sub_scalar xs a = map (\<lambda>v. v - a) xs"

definition scalar_sub :: "real \<Rightarrow> real list \<Rightarrow> real list" where
  "scalar_sub a xs = map (\<lambda>v. a - v) xs"

subsection \<open>The single-exponential fit\<close>

text \<open>
  \<^verbatim>\<open>
  def func(x, param):
      return param[0] * np.exp( - x / param[1] )
  def leastsq_function(param, *args):
      return ( args[1] - func(args[0], param) ) / args[2]
  \<close>
  \<^verbatim>\<open>args\<close> is the tuple of the extra positional arguments, here a list of arrays.
\<close>

definition func_single :: "real list \<Rightarrow> real list \<Rightarrow> py_error + real list" where
  "func_single x param =
     bnd (getitem param 0) (\<lambda>p0.
     bnd (getitem param 1) (\<lambda>p1.
     Inr (scalar_mul p0 (np_exp (div_scalar (np_neg x) p1)))))"

definition leastsq_function_single :: "real list \<Rightarrow> real list list \<Rightarrow> py_error + real list" where
  "leastsq_function_single param args =
     bnd (getitem args 1) (\<lambda>y.
     bnd (getitem args 0) (\<lambda>x.
     bnd (func_single x param) (\<lambda>f.
     bnd (np_binop (-) y f) (\<lambda>d.
     bnd (getitem args 2) (\<lambda>yerr.
     np_binop (/) d yerr)))))"

text \<open>
  The model handed to \<^verbatim>\<open>curve_fit\<close> takes its parameters one by one:
  \<^verbatim>\<open>
  def func(x, F0, tau0):
      return F0 * np.exp( - x / tau0 )
  \<close>
\<close>

definition func_curve_fit :: "real list \<Rightarrow> real \<Rightarrow> real \<Rightarrow> real list" where
  "func_curve_fit x F0 tau0 = scalar_mul F0 (np_exp (div_scalar (np_neg x) tau0))"

subsection \<open>The global fit\<close>

text \<open>
  \<^verbatim>\<open>
  def func(x, param):
      return param[0]*np.exp( - x/param[1] + param[3]*np.expm1(-param[2]*x) )
  def leastsq_function(p, *args):
      residuals = np.empty(0)
      for i,m in enumerate(p[3:]):
          param = p[0], p[1], p[2], m
          r = ( args[1][i] - func(args[0][i], param) ) / args[2][i]
          residuals = np.append(residuals, r)
      return residuals
  \<close>
\<close>

definition func_global :: "real list \<Rightarrow> real list \<Rightarrow> py_error + real list" where
  "func_global x param =
     bnd (getitem param 0) (\<lambda>p0.
     bnd (getitem param 1) (\<lambda>p1.
     bnd (getitem param 3) (\<lambda>p3.
     bnd (getitem param 2) (\<lambda>p2.
     bnd (np_binop (+) (div_scalar (np_neg x) p1)
            (scalar_mul p3 (np_expm1 (scalar_mul (- p2) x)))) (\<lambda>e.
     Inr (scalar_mul p0 (np_exp e)))))))"

definition enumerate :: "'a list \<Rightarrow> (nat \<times> 'a) list" where
  "enumerate xs = zip [0..<length xs] xs"

text \<open>The body of the loop: the residuals \<^verbatim>\<open>r\<close> of dataset \<open>i\<close>.\<close>

definition residuals_of ::
  "(real list \<Rightarrow> real list \<Rightarrow> py_error + real list) \<Rightarrow>
   real list \<Rightarrow> real list list list \<Rightarrow> nat \<Rightarrow> real \<Rightarrow> py_error + real list" where
  "residuals_of f p args i m =
     bnd (getitem p 0) (\<lambda>p0.
     bnd (getitem p 1) (\<lambda>p1.
     bnd (getitem p 2) (\<lambda>p2.
     bnd (getitem args 1) (\<lambda>ally.
     bnd (getitem ally i) (\<lambda>y.
     bnd (getitem args 0) (\<lambda>allx.
     bnd (getitem allx i) (\<lambda>x.
     bnd (f x [p0, p1, p2, m]) (\<lambda>fx.
     bnd (np_binop (-) y fx) (\<lambda>d.
     bnd (getitem args 2) (\<lambda>allyerr.
     bnd (getitem allyerr i) (\<lambda>yerr.
     np_binop (/) d yerr)))))))))))"

text \<open>The loop, with the array \<^verbatim>\<open>residuals\<close> as its state.\<close>

fun residuals_loop ::
  "(real list \<Rightarrow> real list \<Rightarrow> py_error + real list) \<Rightarrow>
   real list \<Rightarrow> real list list list \<Rightarrow> (nat \<times> real) list \<Rightarrow> real list \<Rightarrow>
   py_error + real list" where
  "residuals_loop f p args [] residuals = Inr residuals"
| "residuals_loop f p args ((i, m) # rest) residuals =
     bnd (residuals_of f p args i m) (\<lambda>r.
     residuals_loop f p args rest (residuals @ r))"

text \<open>
  \<^verbatim>\<open>leastsq_function\<close> calls whatever the global name \<^verbatim>\<open>func\<close> is bound to when it runs:
  the quenching model at first, the linearised model after the last redefinition. The
  loop takes the model as its first argument; \<open>leastsq_function_global\<close> is the loop
  with the quenching model.
\<close>

definition leastsq_function_with ::
  "(real list \<Rightarrow> real list \<Rightarrow> py_error + real list) \<Rightarrow>
   real list \<Rightarrow> real list list list \<Rightarrow> py_error + real list" where
  "leastsq_function_with f p args = residuals_loop f p args (enumerate (drop 3 p)) []"

definition leastsq_function_global :: "real list \<Rightarrow> real list list list \<Rightarrow> py_error + real list" where
  "leastsq_function_global p args = leastsq_function_with func_global p args"

text \<open>
  The linearised model of the last task:
  \<^verbatim>\<open>
  def func(x, param):
      return param[0] - x/param[1] + param[3]*np.expm1(-param[2]*x)
  \<close>
\<close>

definition func_linearized :: "real list \<Rightarrow> real list \<Rightarrow> py_error + real list" where
  "func_linearized x param =
     bnd (getitem param 0) (\<lambda>p0.
     bnd (getitem param 1) (\<lambda>p1.
     bnd (getitem param 3) (\<lambda>p3.
     bnd (getitem param 2) (\<lambda>p2.
     np_binop (+) (scalar_sub p0 (div_scalar x p1))
        (scalar_mul p3 (np_expm1 (scalar_mul (- p2) x)))))))"

subsection \<open>Two-dimensional arrays\<close>

text \<open>
  A two-dimensional array keeps its column count beside its rows, so that an array with
  no rows still has a shape, as in NumPy.
\<close>

record matrix =
  ncols :: nat
  rows :: "real list list"

definition shape :: "matrix \<Rightarrow> nat \<times> nat" where
  "shape M = (length (rows M), ncols M)"

text \<open>\<^verbatim>\<open>M[:r]\<close>: the first \<open>r\<close> rows; a slice never raises.\<close>

definition take_rows :: "nat \<Rightarrow> matrix \<Rightarrow> matrix" where
  "take_rows r M = M\<lparr>rows := take r (rows M)\<rparr>"

definition column :: "nat \<Rightarrow> matrix \<Rightarrow> real list" where
  "column j M = map (\<lambda>r. r ! j) (rows M)"

text \<open>\<^verbatim>\<open>M.T\<close>\<close>

definition mat_T :: "matrix \<Rightarrow> matrix" where
  "mat_T M = \<lparr>ncols = length (rows M), rows = map (\<lambda>j. column j M) [0..<ncols M]\<rparr>"

text \<open>
  \<^verbatim>\<open>M / v\<close> for a two-dimensional \<open>M\<close> and a one-dimensional \<open>v\<close>: broadcasting aligns
  \<open>v\<close> with the last axis of \<open>M\<close>, so every row of \<open>M\<close> is divided elementwise by \<open>v\<close>.
\<close>

definition mat_div_vec :: "matrix \<Rightarrow> real list \<Rightarrow> py_error + matrix" where
  "mat_div_vec M v =
     (if ncols M = length v then Inr (M\<lparr>rows := map (\<lambda>r. map2 (/) r v) (rows M)\<rparr>)
      else if length v = 1 then Inr (M\<lparr>rows := map (\<lambda>r. map (\<lambda>a. a / hd v) r) (rows M)\<rparr>)
      else if ncols M = 1
        then Inr \<lparr>ncols = length v, rows = map (\<lambda>r. map (\<lambda>b. hd r / b) v) (rows M)\<rparr>
      else Inl ValueError)"

text \<open>\<^verbatim>\<open>np.dot(A, B)\<close> of two two-dimensional arrays: the matrix product.\<close>

definition np_dot :: "matrix \<Rightarrow> matrix \<Rightarrow> py_error + matrix" where
  "np_dot A B =
     (if ncols A = length (rows B)
      then Inr \<lparr>ncols = ncols B,
                rows = map (\<lambda>r. map (\<lambda>j. sum_list (map2 (*) r (column j B))) [0..<ncols B])
                         (rows A)\<rparr>
      else Inl ValueError)"

definition mat_scale :: "matrix \<Rightarrow> real \<Rightarrow> matrix" where
  "mat_scale M c = M\<lparr>rows := map (\<lambda>r. map (\<lambda>a. a * c) r) (rows M)\<rparr>"

definition np_diag :: "matrix \<Rightarrow> real list" where
  "np_diag M = map (\<lambda>i. rows M ! i ! i) [0..<min (length (rows M)) (ncols M)]"

subsection \<open>Error analysis\<close>

text \<open>
  \<^verbatim>\<open>
  from scipy.linalg import svd
  # copied from curve_fit
  def error_analysis(res):
      cost = 2 * res.cost  # res.cost is half sum of squares!
      s_sq = cost / (res.fun.size - res.x.size) # residual variance or reduced chi squared
      # Do Moore-Penrose inverse discarding zero singular values.
      _, s, VT = svd(res.jac, full_matrices=False)
      threshold = np.finfo(float).eps * max(res.jac.shape) * s[0]
      s = s[s > threshold]
      VT = VT[:s.size]
      pcov = np.dot(VT.T / s**2, VT) * s_sq # variance-covariance matrix
      return np.sqrt(np.diag(pcov)), s_sq
  \<close>
  \<^verbatim>\<open>res\<close> is the result object of the library's \<^verbatim>\<open>least_squares\<close>; the fields read here
  are its record. \<^verbatim>\<open>svd\<close> is the library's: the function takes it as an argument, and
  the theorems say what they assume of its result.
\<close>

record opt_result =
  res_x :: "real list"
  res_cost :: real
  res_fun :: "real list"
  res_jac :: matrix

type_synonym svd_fun = "matrix \<Rightarrow> py_error + (matrix \<times> real list \<times> matrix)"

text \<open>\<^verbatim>\<open>np.finfo(float).eps\<close>, the spacing of double precision at 1.\<close>

definition eps :: real where
  "eps = 1 / 2 ^ 52"

text \<open>\<^verbatim>\<open>res.fun.size - res.x.size\<close>, a Python integer.\<close>

definition dof :: "opt_result \<Rightarrow> int" where
  "dof res = int (length (res_fun res)) - int (length (res_x res))"

definition s_sq_of :: "opt_result \<Rightarrow> real" where
  "s_sq_of res = (let cost = 2 * res_cost res in cost / real_of_int (dof res))"

definition threshold_of :: "matrix \<Rightarrow> real \<Rightarrow> real" where
  "threshold_of J s0 = eps * real (max (fst (shape J)) (snd (shape J))) * s0"

text \<open>\<^verbatim>\<open>s[s > threshold]\<close>\<close>

definition retained :: "real list \<Rightarrow> real \<Rightarrow> real list" where
  "retained s threshold = filter (\<lambda>v. threshold < v) s"

text \<open>The function up to its last line: the matrix \<^verbatim>\<open>pcov\<close> and \<^verbatim>\<open>s_sq\<close>.\<close>

definition error_analysis_pcov :: "svd_fun \<Rightarrow> opt_result \<Rightarrow> py_error + (matrix \<times> real)" where
  "error_analysis_pcov svd res =
     (let s_sq = s_sq_of res in
      bnd (svd (res_jac res)) (\<lambda>(u, s, VT).
      bnd (getitem s 0) (\<lambda>s0.
      let threshold = threshold_of (res_jac res) s0;
          s' = retained s threshold;
          VT' = take_rows (length s') VT
      in bnd (mat_div_vec (mat_T VT') (map (\<lambda>v. v ^ 2) s')) (\<lambda>A.
         bnd (np_dot A VT') (\<lambda>P.
         Inr (mat_scale P s_sq, s_sq))))))"

definition error_analysis :: "svd_fun \<Rightarrow> opt_result \<Rightarrow> py_error + (real list \<times> real)" where
  "error_analysis svd res =
     bnd (error_analysis_pcov svd res) (\<lambda>(pcov, s_sq).
     Inr (np_sqrt (np_diag pcov), s_sq))"

text \<open>
  The variance-covariance matrix as the formula \<open>V diag(1/s\<^sup>2) V\<^sup>T s_sq\<close> writes it, over
  the singular values above the threshold: entry \<open>(a, b)\<close>, with \<open>V\<close> the transpose of
  \<open>VT\<close>.
\<close>

definition pcov_formula :: "real list \<Rightarrow> matrix \<Rightarrow> real \<Rightarrow> real \<Rightarrow> nat \<Rightarrow> nat \<Rightarrow> real" where
  "pcov_formula s VT threshold s_sq a b =
     (\<Sum>j \<leftarrow> filter (\<lambda>j. threshold < s ! j) [0..<length s].
        rows VT ! j ! a * (1 / (s ! j) ^ 2) * rows VT ! j ! b) * s_sq"

subsection \<open>Division by zero\<close>

text \<open>
  NumPy does not raise when a \<^verbatim>\<open>float64\<close> is divided by zero: it warns (\<^verbatim>\<open>divide by zero
  encountered\<close>, or \<^verbatim>\<open>invalid value encountered\<close> for 0/0) and goes on with \<^verbatim>\<open>inf\<close> or
  \<^verbatim>\<open>nan\<close>. A call of \<^verbatim>\<open>error_analysis\<close> divides twice: \<^verbatim>\<open>cost\<close> by the integer
  \<^verbatim>\<open>res.fun.size - res.x.size\<close>, and the rows of \<^verbatim>\<open>VT.T\<close> by the \<^verbatim>\<open>float64\<close> array
  \<^verbatim>\<open>s**2\<close>.
\<close>

datatype np_warning = DivideByZero

text \<open>
  The \<^verbatim>\<open>float64\<close> square of \<open>v\<close> is the exact square rounded to the nearest \<^verbatim>\<open>float64\<close>,
  ties to even. The smallest positive \<^verbatim>\<open>float64\<close> is \<open>2^(-1074)\<close>, so the square is \<^verbatim>\<open>0.0\<close>
  exactly when the exact square is at most half of that.
\<close>

definition f64_square_is_zero :: "real \<Rightarrow> bool" where
  "f64_square_is_zero v \<longleftrightarrow> v ^ 2 \<le> 1 / 2 ^ 1075"

text \<open>
  Whether \<^verbatim>\<open>M / v\<close> divides some element by zero, for \<open>z\<close> the flags of the zero
  elements of \<open>v\<close>; the cases are those of the broadcasting.
\<close>

definition divides_by_zero :: "matrix \<Rightarrow> bool list \<Rightarrow> bool" where
  "divides_by_zero M z \<longleftrightarrow>
     (if ncols M = length z then rows M \<noteq> [] \<and> True \<in> set z
      else if length z = 1 then rows M \<noteq> [] \<and> 0 < ncols M \<and> hd z
      else if ncols M = 1 then rows M \<noteq> [] \<and> True \<in> set z
      else False)"

text \<open>
  The warnings of a call of \<^verbatim>\<open>error_analysis\<close>: one for each of its two divisions that
  has a zero divisor. An exception ends the call, and what was warned before stays.
\<close>

definition error_analysis_warnings :: "svd_fun \<Rightarrow> opt_result \<Rightarrow> np_warning list" where
  "error_analysis_warnings svd res =
     (if dof res = 0 then [DivideByZero] else []) @
     (case svd (res_jac res) of
        Inl e \<Rightarrow> []
      | Inr (u, s, VT) \<Rightarrow>
          (case getitem s 0 of
             Inl e \<Rightarrow> []
           | Inr s0 \<Rightarrow>
               let threshold = threshold_of (res_jac res) s0;
                   s' = retained s threshold;
                   VT' = take_rows (length s') VT
               in if divides_by_zero (mat_T VT') (map f64_square_is_zero s')
                  then [DivideByZero] else []))"

subsection \<open>Files\<close>

text \<open>
  The notebook reads tab-separated text files and writes one pickle. A text file is its
  lines: a line of the header, or a row of two numbers (time and counts). The file
  system maps a path to its file; every operation on it is recorded in a log.
\<close>

datatype line = Header string | Row real real

record dataset =
  col_t :: "real list"
  col_F :: "real list"
  col_Ferr :: "real list"

text \<open>A \<^verbatim>\<open>DataFrame\<close> built from a dictionary of dictionaries: its columns, in order.\<close>

type_synonym dataframe = "(real \<times> dataset) list"

datatype fs_file = TextFile "line list" | PickleFile dataframe

datatype fs_op = ReadFile string | WriteFile string | ListDir string

record world =
  files :: "string \<Rightarrow> fs_file option"
  oplog :: "fs_op list"

type_synonym 'a io = "world \<Rightarrow> (py_error + 'a) \<times> world"

definition io_bnd :: "'a io \<Rightarrow> ('a \<Rightarrow> 'b io) \<Rightarrow> 'b io" where
  "io_bnd m f = (\<lambda>w. case m w of (Inl e, w') \<Rightarrow> (Inl e, w') | (Inr v, w') \<Rightarrow> f v w')"

definition io_lift :: "py_error + 'a \<Rightarrow> 'a io" where
  "io_lift r = (\<lambda>w. (r, w))"

text \<open>A \<^verbatim>\<open>for\<close> loop over a list, with the variables the body assigns as its state.\<close>

fun for_loop :: "'a list \<Rightarrow> ('a \<Rightarrow> 's \<Rightarrow> 's io) \<Rightarrow> 's \<Rightarrow> 's io" where
  "for_loop [] body st = io_lift (Inr st)"
| "for_loop (v # vs) body st = io_bnd (body v st) (for_loop vs body)"

definition record_op :: "fs_op \<Rightarrow> world \<Rightarrow> world" where
  "record_op op w = w\<lparr>oplog := oplog w @ [op]\<rparr>"

text \<open>
  What \<^verbatim>\<open>np.loadtxt\<close> returns: a two-dimensional array when the file has two rows or
  more, and (with the default \<^verbatim>\<open>ndmin=0\<close>) a one-dimensional one when it has a single row
  or none.
\<close>

datatype ndarray = Array1 "real list" | Array2 "(real \<times> real) list"

fun parse_rows :: "line list \<Rightarrow> py_error + (real \<times> real) list" where
  "parse_rows [] = Inr []"
| "parse_rows (Header h # ls) = Inl ValueError"
| "parse_rows (Row a b # ls) = bnd (parse_rows ls) (\<lambda>rs. Inr ((a, b) # rs))"

definition squeeze :: "(real \<times> real) list \<Rightarrow> ndarray" where
  "squeeze rs = (case rs of [] \<Rightarrow> Array1 [] | [r] \<Rightarrow> Array1 [fst r, snd r] | _ \<Rightarrow> Array2 rs)"

text \<open>\<^verbatim>\<open>np.loadtxt(fname, skiprows=n)\<close>\<close>

definition loadtxt :: "string \<Rightarrow> nat \<Rightarrow> ndarray io" where
  "loadtxt fname skiprows w =
     (case files w fname of
        None \<Rightarrow> Inl OSError
      | Some (PickleFile df) \<Rightarrow> Inl ValueError
      | Some (TextFile ls) \<Rightarrow> bnd (parse_rows (drop skiprows ls)) (\<lambda>rs. Inr (squeeze rs)),
      record_op (ReadFile fname) w)"

text \<open>\<^verbatim>\<open>dataframe.to_pickle(path)\<close>\<close>

definition to_pickle :: "dataframe \<Rightarrow> string \<Rightarrow> unit io" where
  "to_pickle df path w =
     (Inr (), record_op (WriteFile path) (w\<lparr>files := (files w)(path \<mapsto> PickleFile df)\<rparr>))"

text \<open>\<^verbatim>\<open>pd.read_pickle(path)\<close>\<close>

definition read_pickle :: "string \<Rightarrow> dataframe io" where
  "read_pickle path w =
     (case files w path of
        None \<Rightarrow> Inl OSError
      | Some (TextFile ls) \<Rightarrow> Inl UnpicklingError
      | Some (PickleFile df) \<Rightarrow> Inr df,
      record_op (ReadFile path) w)"

text \<open>
  The shell escapes \<^verbatim>\<open>!head -n 13 file\<close> and \<^verbatim>\<open>!ls dir\<close>: the shell reads the file or
  lists the directory, and no failure of the command becomes a Python exception.
\<close>

definition sh_head :: "string \<Rightarrow> unit io" where
  "sh_head path w = (Inr (), record_op (ReadFile path) w)"

definition sh_ls :: "string \<Rightarrow> unit io" where
  "sh_ls dir w = (Inr (), record_op (ListDir dir) w)"

subsection \<open>Paths\<close>

text \<open>
  \<^verbatim>\<open>'{:1.1f}'.format(conc)\<close>: one digit after the point, the value rounded to the
  nearest tenth, and an exact tie to the even one.
\<close>

definition round_half_even :: "real \<Rightarrow> int" where
  "round_half_even v =
     (let f = \<lfloor>v\<rfloor>; r = v - of_int f
      in if r < 1 / 2 then f else if 1 / 2 < r then f + 1 else if even f then f else f + 1)"

definition digit_char :: "nat \<Rightarrow> char" where
  "digit_char d = ''0123456789'' ! d"

fun show_nat :: "nat \<Rightarrow> string" where
  "show_nat n = (if n < 10 then [digit_char n] else show_nat (n div 10) @ [digit_char (n mod 10)])"

definition format_1_1f :: "real \<Rightarrow> string" where
  "format_1_1f c =
     (let n = nat (round_half_even (\<bar>c\<bar> * 10))
      in (if c < 0 then ''-'' else []) @ show_nat (n div 10) @ ''.'' @ show_nat (n mod 10))"

definition quencher_path :: "real \<Rightarrow> string" where
  "quencher_path conc = ''data/fluorescence/quencher_'' @ format_1_1f conc @ ''.txt''"

definition pickle_path :: string where
  "pickle_path = ''data/fluorescence.p''"

definition concs :: "real list" where
  "concs = [0, 0.2, 0.5, 1.0, 1.5]"

text \<open>The paths \<^verbatim>\<open>data/fluorescence/quencher_*.txt\<close>.\<close>

definition is_quencher_txt :: "string \<Rightarrow> bool" where
  "is_quencher_txt p \<longleftrightarrow>
     take 27 p = ''data/fluorescence/quencher_'' \<and> 31 \<le> length p \<and>
     drop (length p - 4) p = ''.txt''"

subsection \<open>Preprocessing\<close>

text \<open>
  \<^verbatim>\<open>
  d = np.loadtxt('data/fluorescence/quencher_{:1.1f}.txt'.format(conc), unpack=False, skiprows=9)
  d = d[ d[:,0] > d[d[:,1]==d[:,1].max(), 0] ] # points before the intesity max are discarded
  data[conc] = { 't': d[:,0]-d[0,0], 'F': d[:,1], 'Ferr': np.sqrt(d[:,1]) }
  \<close>
\<close>

text \<open>\<^verbatim>\<open>d[:,j]\<close> needs two dimensions.\<close>

definition rows2d :: "ndarray \<Rightarrow> py_error + (real \<times> real) list" where
  "rows2d d = (case d of Array1 v \<Rightarrow> Inl IndexError | Array2 rs \<Rightarrow> Inr rs)"

text \<open>\<^verbatim>\<open>a.max()\<close>: ValueError on an empty array.\<close>

definition np_max :: "real list \<Rightarrow> py_error + real" where
  "np_max xs = (if xs = [] then Inl ValueError else Inr (fold max (tl xs) (hd xs)))"

text \<open>\<^verbatim>\<open>d[mask]\<close> with a boolean mask over the rows.\<close>

definition bool_index :: "'a list \<Rightarrow> bool list \<Rightarrow> py_error + 'a list" where
  "bool_index rs keep =
     (if length keep = length rs then Inr (map fst (filter snd (zip rs keep)))
      else Inl IndexError)"

definition discard_before_max :: "ndarray \<Rightarrow> py_error + (real \<times> real) list" where
  "discard_before_max d =
     bnd (rows2d d) (\<lambda>rs.
     bnd (np_max (map snd rs)) (\<lambda>m.
     let t_max = map fst (filter (\<lambda>r. snd r = m) rs)
     in bnd (np_binop (\<lambda>a b. b < a) (map fst rs) t_max) (\<lambda>keep.
        bool_index rs keep)))"

definition dataset_of :: "(real \<times> real) list \<Rightarrow> py_error + dataset" where
  "dataset_of rs =
     bnd (getitem rs 0) (\<lambda>r0.
     Inr \<lparr>col_t = sub_scalar (map fst rs) (fst r0),
          col_F = map snd rs,
          col_Ferr = np_sqrt (map snd rs)\<rparr>)"

definition preprocess :: "ndarray \<Rightarrow> py_error + dataset" where
  "preprocess d = bnd (discard_before_max d) dataset_of"

text \<open>
  Names for what the statements about the preprocessing speak of: the largest
  intensity of a table, the rows that attain it, and the time of the first of them.
\<close>

definition intensity_max :: "(real \<times> real) list \<Rightarrow> real" where
  "intensity_max rs = fold max (tl (map snd rs)) (hd (map snd rs))"

definition max_rows :: "(real \<times> real) list \<Rightarrow> (real \<times> real) list" where
  "max_rows rs = filter (\<lambda>r. snd r = intensity_max rs) rs"

definition time_of_max :: "(real \<times> real) list \<Rightarrow> real" where
  "time_of_max rs = fst (hd (max_rows rs))"

definition later_rows :: "(real \<times> real) list \<Rightarrow> (real \<times> real) list" where
  "later_rows rs = filter (\<lambda>r. time_of_max rs < fst r) rs"

subsection \<open>The cells that touch files\<close>

text \<open>
  \<^verbatim>\<open>
  !head -n 13 'data/fluorescence/quencher_0.0.txt'
  !ls 'data/fluorescence'
  \<close>
\<close>

definition cell_head :: "unit io" where
  "cell_head = sh_head ''data/fluorescence/quencher_0.0.txt''"

definition cell_ls :: "unit io" where
  "cell_ls = sh_ls ''data/fluorescence''"

text \<open>
  \<^verbatim>\<open>
  for conc in [0,0.2,0.5,1.0,1.5]:
      t,F = np.loadtxt('data/fluorescence/quencher_{:1.1f}.txt'.format(conc), unpack=True, skiprows=9)
      plt.errorbar(t, F, np.sqrt(F), ...)
  \<close>
  Plotting touches no file and is left out.
\<close>

definition unpack_columns :: "ndarray \<Rightarrow> py_error + (real list \<times> real list)" where
  "unpack_columns d =
     (case d of
        Array2 rs \<Rightarrow> Inr (map fst rs, map snd rs)
      | Array1 v \<Rightarrow> (case v of [a, b] \<Rightarrow> Inr ([a], [b]) | _ \<Rightarrow> Inl ValueError))"

definition cell_plot_raw :: "unit io" where
  "cell_plot_raw =
     for_loop concs (\<lambda>conc st.
       io_bnd (loadtxt (quencher_path conc) 9) (\<lambda>d.
       io_bnd (io_lift (unpack_columns d)) (\<lambda>tF.
       io_lift (Inr ())))) ()"

text \<open>
  \<^verbatim>\<open>
  for conc in [0,0.2,0.5,1.0,1.5]:
      d = np.loadtxt('data/fluorescence/quencher_{:1.1f}.txt'.format(conc), unpack=False, skiprows=9)
      d = d[ d[:,0] > d[d[:,1]==d[:,1].max(), 0] ]
      plt.errorbar(d[:,0]-d[0,0], d[:,1], np.sqrt(d[:,1]), ...)
  \<close>
\<close>

definition cell_plot_shifted :: "unit io" where
  "cell_plot_shifted =
     for_loop concs (\<lambda>conc st.
       io_bnd (loadtxt (quencher_path conc) 9) (\<lambda>d.
       io_bnd (io_lift (preprocess d)) (\<lambda>ds.
       io_lift (Inr ())))) ()"

text \<open>
  \<^verbatim>\<open>
  data = {}
  for conc in [0,0.2,0.5,1.0,1.5]:
      d = np.loadtxt('data/fluorescence/quencher_{:1.1f}.txt'.format(conc), unpack=False, skiprows=9)
      d = d[ d[:,0] > d[d[:,1]==d[:,1].max(), 0] ]
      data[conc] = { 't': d[:,0]-d[0,0], 'F': d[:,1], 'Ferr': np.sqrt(d[:,1]) }
  dataframe = pd.DataFrame(data)
  dataframe.to_pickle('data/fluorescence.p')
  dataframe
  \<close>
\<close>

fun dict_set :: "('k \<times> 'v) list \<Rightarrow> 'k \<Rightarrow> 'v \<Rightarrow> ('k \<times> 'v) list" where
  "dict_set [] k v = [(k, v)]"
| "dict_set ((k', v') # kvs) k v =
     (if k' = k then (k', v) # kvs else (k', v') # dict_set kvs k v)"

definition dict_get :: "('k \<times> 'v) list \<Rightarrow> 'k \<Rightarrow> py_error + 'v" where
  "dict_get kvs k = (case map_of kvs k of None \<Rightarrow> Inl KeyError | Some v \<Rightarrow> Inr v)"

definition load_dataset :: "real \<Rightarrow> dataframe \<Rightarrow> dataframe io" where
  "load_dataset conc data =
     io_bnd (loadtxt (quencher_path conc) 9) (\<lambda>d.
     io_bnd (io_lift (preprocess d)) (\<lambda>ds.
     io_lift (Inr (dict_set data conc ds))))"

definition cell_pickle :: "dataframe io" where
  "cell_pickle =
     io_bnd (for_loop concs load_dataset []) (\<lambda>data.
     io_bnd (to_pickle data pickle_path) (\<lambda>u.
     io_lift (Inr data)))"

text \<open>
  \<^verbatim>\<open>
  d = pd.read_pickle('data/fluorescence.p')[0.0]
  args = [ d['t'], d['F'], d['Ferr'] ]
  \<close>
\<close>

definition cell_single_args :: "real list list io" where
  "cell_single_args =
     io_bnd (read_pickle pickle_path) (\<lambda>df.
     io_bnd (io_lift (dict_get df 0.0)) (\<lambda>d.
     io_lift (Inr [col_t d, col_F d, col_Ferr d])))"

text \<open>
  \<^verbatim>\<open>
  data = pd.read_pickle('data/fluorescence.p')
  allx = []; ally = []; allyerr = []
  for conc in data.columns:
      allx.append(data[conc]['t']); ally.append(data[conc]['F']); allyerr.append(data[conc]['Ferr'])
  args = allx, ally, allyerr
  \<close>
\<close>

definition append_dataset ::
  "dataframe \<Rightarrow> real \<Rightarrow> real list list \<times> real list list \<times> real list list \<Rightarrow>
   (real list list \<times> real list list \<times> real list list) io" where
  "append_dataset data conc st =
     (case st of (allx, ally, allyerr) \<Rightarrow>
        io_bnd (io_lift (dict_get data conc)) (\<lambda>dx.
        io_bnd (io_lift (dict_get data conc)) (\<lambda>dy.
        io_bnd (io_lift (dict_get data conc)) (\<lambda>de.
        io_lift (Inr (allx @ [col_t dx], ally @ [col_F dy], allyerr @ [col_Ferr de]))))))"

definition cell_global_args :: "real list list list io" where
  "cell_global_args =
     io_bnd (read_pickle pickle_path) (\<lambda>data.
     io_bnd (for_loop (map fst data) (append_dataset data) ([], [], [])) (\<lambda>st.
     case st of (allx, ally, allyerr) \<Rightarrow> io_lift (Inr [allx, ally, allyerr])))"

text \<open>
  The other cells fit, plot and print; they touch no file. One of them may raise and end
  a run of the whole notebook early, so the runs of the notebook are the runs of the
  prefixes of this list of cells, each stopping at the first exception.
\<close>

definition discard :: "'a io \<Rightarrow> unit io" where
  "discard m = io_bnd m (\<lambda>v. io_lift (Inr ()))"

definition notebook_cells :: "unit io list" where
  "notebook_cells =
     [cell_head, cell_ls, cell_plot_raw, cell_plot_shifted,
      discard cell_pickle, discard cell_single_args, discard cell_global_args]"

fun run_cells :: "unit io list \<Rightarrow> unit io" where
  "run_cells [] = io_lift (Inr ())"
| "run_cells (c # cs) = io_bnd c (\<lambda>u. run_cells cs)"

definition start :: "(string \<Rightarrow> fs_file option) \<Rightarrow> world" where
  "start fs = \<lparr>files = fs, oplog = []\<rparr>"

text \<open>The operations the notebook is written to perform on files.\<close>

definition is_write :: "fs_op \<Rightarrow> bool" where
  "is_write op = (case op of WriteFile p \<Rightarrow> True | _ \<Rightarrow> False)"

definition reads_input :: "fs_op \<Rightarrow> bool" where
  "reads_input op = (case op of ReadFile p \<Rightarrow> is_quencher_txt p | _ \<Rightarrow> False)"

definition input_or_pickle :: "fs_op \<Rightarrow> bool" where
  "input_or_pickle op \<longleftrightarrow>
     reads_input op \<or> op = WriteFile pickle_path \<or> op = ReadFile pickle_path"

subsection \<open>Invariants of a run\<close>

text \<open>
  The operations a run is shown to perform: the ones above, and the listing of the data
  directory by the \<^verbatim>\<open>!ls\<close> cell.
\<close>

definition notebook_op :: "fs_op \<Rightarrow> bool" where
  "notebook_op op \<longleftrightarrow> input_or_pickle op \<or> op = ListDir ''data/fluorescence''"

text \<open>
  A computation that only reads: it leaves every file as it is and adds to the log only
  operations that satisfy \<open>A\<close>.
\<close>

definition reads_within :: "(fs_op \<Rightarrow> bool) \<Rightarrow> 'a io \<Rightarrow> bool" where
  "reads_within A m \<longleftrightarrow>
     (\<forall>w. files (snd (m w)) = files w \<and>
          (\<exists>ops. oplog (snd (m w)) = oplog w @ ops \<and> list_all A ops))"

definition reads_or_lists :: "fs_op \<Rightarrow> bool" where
  "reads_or_lists op \<longleftrightarrow> reads_input op \<or> op = ListDir ''data/fluorescence''"

definition reads_pickle :: "fs_op \<Rightarrow> bool" where
  "reads_pickle op \<longleftrightarrow> op = ReadFile pickle_path"

text \<open>The two stages of a run: before the pickle is written, and after.\<close>

definition no_write_yet :: "(string \<Rightarrow> fs_file option) \<Rightarrow> world \<Rightarrow> bool" where
  "no_write_yet fs w \<longleftrightarrow> files w = fs \<and> list_all reads_or_lists (oplog w)"

definition written_once :: "(string \<Rightarrow> fs_file option) \<Rightarrow> world \<Rightarrow> bool" where
  "written_once fs w \<longleftrightarrow>
     (\<exists>df. files w = fs(pickle_path \<mapsto> PickleFile df)) \<and>
     (\<exists>before after. oplog w = before @ [WriteFile pickle_path] @ after \<and>
        list_all reads_or_lists before \<and> list_all reads_pickle after)"

text \<open>
  What holds of a column of the pickled table: the errors are the square roots of the
  intensities, and the intensities are those of the rows of the text file that lie after
  the maximum.
\<close>

definition column_ok :: "(string \<Rightarrow> fs_file option) \<Rightarrow> real \<times> dataset \<Rightarrow> bool" where
  "column_ok fs col \<longleftrightarrow>
     col_Ferr (snd col) = map sqrt (col_F (snd col)) \<and>
     (\<exists>ls rs. fs (quencher_path (fst col)) = Some (TextFile ls) \<and>
        parse_rows (drop 9 ls) = Inr rs \<and> col_F (snd col) = map snd (later_rows rs))"

subsection \<open>An example file system\<close>

text \<open>
  Every \<^verbatim>\<open>quencher_*.txt\<close> holds nine header lines and four rows; the maximum is in the
  second row.
\<close>

definition example_lines :: "line list" where
  "example_lines = replicate 9 (Header ''# header'') @ [Row 0 1, Row 1 5, Row 2 3, Row 3 2]"

definition example_fs :: "string \<Rightarrow> fs_file option" where
  "example_fs p = (if is_quencher_txt p then Some (TextFile example_lines) else None)"

definition example_dataset :: dataset where
  "example_dataset = \<lparr>col_t = [0, 1], col_F = [3, 2], col_Ferr = [sqrt 3, sqrt 2]\<rparr>"

section \<open>Properties\<close>

subsection \<open>Sequencing and indexing\<close>

lemma bnd_Inr [simp]: "bnd (Inr v) f = f v"
  by (simp add: bnd_def)

lemma bnd_Inl [simp]: "bnd (Inl e) f = Inl e"
  by (simp add: bnd_def)

lemma getitem_in_range [simp]: "i < length xs \<Longrightarrow> getitem xs i = Inr (xs ! i)"
  by (simp add: getitem_def)

lemma getitem_out_of_range [simp]: "length xs \<le> i \<Longrightarrow> getitem xs i = Inl IndexError"
  by (simp add: getitem_def)

lemma np_binop_same_length [simp]:
  "length xs = length ys \<Longrightarrow> np_binop f xs ys = Inr (map2 f xs ys)"
  by (simp add: np_binop_def)

subsection \<open>The model functions\<close>

lemma func_single_two:
  "func_single x [F0, tau0] = Inr (map (\<lambda>t. F0 * exp (- t / tau0)) x)"
  by (simp add: func_single_def scalar_mul_def np_exp_def div_scalar_def np_neg_def)

lemma func_global_four:
  "func_global x [F0, tau0, k_q, m] =
     Inr (map (\<lambda>t. F0 * exp (- t / tau0 + m * expm1 (- k_q * t))) x)"
proof -
  have len: "length (div_scalar (np_neg x) tau0) =
             length (scalar_mul m (np_expm1 (scalar_mul (- k_q) x)))"
    by (simp add: scalar_mul_def div_scalar_def np_neg_def np_expm1_def)
  have m2: "map2 (+) (div_scalar (np_neg x) tau0) (scalar_mul m (np_expm1 (scalar_mul (- k_q) x))) =
        map (\<lambda>t. - t / tau0 + m * expm1 (- k_q * t)) x"
    by (intro nth_equalityI)
      (simp_all add: scalar_mul_def div_scalar_def np_neg_def np_expm1_def)
  have e: "np_binop (+) (div_scalar (np_neg x) tau0)
      (scalar_mul m (np_expm1 (scalar_mul (- k_q) x))) =
        Inr (map (\<lambda>t. - t / tau0 + m * expm1 (- k_q * t)) x)"
    by (simp only: np_binop_same_length [OF len] m2)
  have "func_global x [F0, tau0, k_q, m] =
        Inr (scalar_mul F0 (np_exp (map (\<lambda>t. - t / tau0 + m * expm1 (- k_q * t)) x)))"
    unfolding func_global_def by (simp add: e)
  then show ?thesis
    by (simp add: scalar_mul_def np_exp_def)
qed

text \<open>
  Claim C3. For every array of times and parameters \<open>F0\<close>, \<open>tau0 > 0\<close>, \<open>k_q\<close>, \<open>m\<close>, the
  quenching model \<open>F0 * exp(-t/tau0 + m * expm1(-k_q * t))\<close> computed by \<^verbatim>\<open>func\<close> equals
  the reference decay \<open>F0 * exp(-t/tau0 - m * (1 - exp(-k_q * t)))\<close> at every time, and
  for \<open>m = 0\<close> it is the single-exponential decay \<open>F0 * exp(-t/tau0)\<close>. The identity
  needs no sign condition on \<open>t\<close>, \<open>k_q\<close> or \<open>m\<close>.
\<close>

theorem func_global_quenching_decay:
  assumes "0 < tau0"
  shows "func_global ts [F0, tau0, k_q, m] =
           Inr (map (\<lambda>t. F0 * exp (- t / tau0 - m * (1 - exp (- k_q * t)))) ts)
       \<and> func_global ts [F0, tau0, k_q, 0] = Inr (map (\<lambda>t. F0 * exp (- t / tau0)) ts)"
  by (simp add: func_global_four expm1_def algebra_simps)

text \<open>At \<open>tau0 = 2\<close>, \<open>k_q = 0\<close> and the times 0 and 2.\<close>

theorem func_global_quenching_decay_witness:
  "(0::real) < 2
   \<and> func_global [0, 2] [3, 2, 0, 5] = Inr [3, 3 * exp (- 1)]
   \<and> func_global [0, 2] [3, 2, 0, 0] = Inr [3, 3 * exp (- 1)]"
  using func_global_quenching_decay [of 2 "[0, 2]" 3 0 5] by simp

subsection \<open>Residuals\<close>

text \<open>
  Claim C5. For every parameter pair \<open>(F0, tau0)\<close> and every dataset \<open>(x, y, yerr)\<close> of
  three arrays of one length with \<open>yerr\<close> nonzero everywhere, the single-exponential
  \<^verbatim>\<open>leastsq_function\<close> returns elementwise \<open>(y - F0 * exp(-x / tau0)) / yerr\<close>.
\<close>

theorem leastsq_function_single_weighted_residuals:
  assumes "length x = length y" and "length yerr = length y"
    and "\<forall>e \<in> set yerr. e \<noteq> 0"
  shows "leastsq_function_single [F0, tau0] [x, y, yerr] =
           Inr (map (\<lambda>(xi, yi, ei). (yi - F0 * exp (- xi / tau0)) / ei) (zip x (zip y yerr)))"
proof -
  have "map2 (/) (map2 (-) y (map (\<lambda>t. F0 * exp (- t / tau0)) x)) yerr =
        map (\<lambda>(xi, yi, ei). (yi - F0 * exp (- xi / tau0)) / ei) (zip x (zip y yerr))"
    using assms by (intro nth_equalityI) simp_all
  with assms show ?thesis
    by (simp add: leastsq_function_single_def func_single_two)
qed

text \<open>Two points, with \<open>F0 = 3\<close> and \<open>tau0 = 1\<close>.\<close>

theorem leastsq_function_single_weighted_residuals_witness:
  "length [0, 1 :: real] = length [5, 4 :: real] \<and> length [2, 2 :: real] = length [5, 4 :: real]
   \<and> list_all (\<lambda>e. e \<noteq> 0) [2, 2 :: real]
   \<and> leastsq_function_single [3, 1] [[0, 1], [5, 4], [2, 2]] = Inr [1, (4 - 3 * exp (- 1)) / 2]"
  using leastsq_function_single_weighted_residuals [of "[0, 1]" "[5, 4]" "[2, 2]" 3 1] by simp

text \<open>The loop of the global fit appends the residuals of the datasets in order.\<close>

lemma residuals_loop_zip:
  assumes "\<And>j. j < length ms \<Longrightarrow> residuals_of f p args (k + j) (ms ! j) = Inr (R (k + j))"
  shows "residuals_loop f p args (zip [k..<k + length ms] ms) acc =
           Inr (acc @ concat (map R [k..<k + length ms]))"
  using assms
proof (induction ms arbitrary: k acc)
  case Nil
  then show ?case by simp
next
  case (Cons m ms)
  have hd: "residuals_of f p args k m = Inr (R k)"
    using Cons.prems [of 0] by simp
  have tl: "residuals_of f p args (Suc k + j) (ms ! j) = Inr (R (Suc k + j))"
    if "j < length ms" for j
    using Cons.prems [of "Suc j"] that by simp
  have "residuals_loop f p args (zip [Suc k..<Suc k + length ms] ms) (acc @ R k) =
          Inr ((acc @ R k) @ concat (map R [Suc k..<Suc k + length ms]))"
    by (rule Cons.IH) (rule tl)
  moreover have "[k..<k + length (m # ms)] = k # [Suc k..<Suc k + length ms]"
    by (simp add: upt_conv_Cons del: upt_Suc)
  ultimately show ?case
    by (simp add: hd del: upt_Suc)
qed

lemma residuals_loop_enumerate:
  assumes "\<And>j. j < length ms \<Longrightarrow> residuals_of f p args j (ms ! j) = Inr (R j)"
  shows "residuals_loop f p args (enumerate ms) [] = Inr (concat (map R [0..<length ms]))"
  using residuals_loop_zip [of ms f p args 0 R "[]"] assms
  by (simp add: enumerate_def)

lemma residuals_of_func_global:
  assumes "3 < length p" and "i < length allx" and "i < length ally" and "i < length allyerr"
    and "length (allx ! i) = length (ally ! i)" and "length (allyerr ! i) = length (ally ! i)"
  shows "residuals_of func_global p [allx, ally, allyerr] i m =
           Inr (map (\<lambda>(x, y, e). (y - p ! 0 * exp (- x / p ! 1 + m * expm1 (- p ! 2 * x))) / e)
                  (zip (allx ! i) (zip (ally ! i) (allyerr ! i))))"
proof -
  let ?g = "\<lambda>t. p ! 0 * exp (- t / p ! 1 + m * expm1 (- p ! 2 * t))"
  have "map2 (/) (map2 (-) (ally ! i) (map ?g (allx ! i))) (allyerr ! i) =
        map (\<lambda>(x, y, e). (y - ?g x) / e) (zip (allx ! i) (zip (ally ! i) (allyerr ! i)))"
    using assms by (intro nth_equalityI) simp_all
  moreover from assms(1) have "0 < length p" "1 < length p" "2 < length p"
    by linarith+
  ultimately show ?thesis
    using assms(2-6) by (simp add: residuals_of_def func_global_four)
qed

text \<open>
  Claim C1. For every parameter vector \<open>p\<close> of length \<open>3 + n\<close> and every \<open>n\<close> datasets
  \<open>(x\<^sub>i, y\<^sub>i, yerr\<^sub>i)\<close> with positive weights, the global \<^verbatim>\<open>leastsq_function\<close> returns the
  concatenation, in the order of the datasets, of the weighted residuals
  \<open>(y\<^sub>i - func(x\<^sub>i, (p[0], p[1], p[2], p[3+i]))) / yerr\<^sub>i\<close>: \<open>p[0]\<close>, \<open>p[1]\<close> and \<open>p[2]\<close>
  are the same for every dataset, and \<open>p[3+i]\<close> belongs to dataset \<open>i\<close>.
\<close>

theorem leastsq_function_global_concatenates:
  assumes "length p = 3 + n"
    and "length allx = n" and "length ally = n" and "length allyerr = n"
    and "\<forall>i<n. length (allx ! i) = length (ally ! i) \<and> length (allyerr ! i) = length (ally ! i)"
    and "\<forall>i<n. \<forall>e \<in> set (allyerr ! i). 0 < e"
  shows "leastsq_function_global p [allx, ally, allyerr] =
           Inr (concat (map (\<lambda>i.
                  map (\<lambda>(x, y, e).
                         (y - p ! 0 * exp (- x / p ! 1 + p ! (3 + i) * expm1 (- p ! 2 * x))) / e)
                    (zip (allx ! i) (zip (ally ! i) (allyerr ! i))))
                [0..<n]))"
proof -
  let ?R = "\<lambda>i. map (\<lambda>(x, y, e).
                         (y - p ! 0 * exp (- x / p ! 1 + p ! (3 + i) * expm1 (- p ! 2 * x))) / e)
                    (zip (allx ! i) (zip (ally ! i) (allyerr ! i)))"
  have len: "length (drop 3 p) = n"
    using assms(1) by simp
  have step: "residuals_of func_global p [allx, ally, allyerr] j (drop 3 p ! j) = Inr (?R j)"
    if "j < length (drop 3 p)" for j
  proof -
    from that len have j: "j < n" by simp
    with assms(1) have "3 < length p" by simp
    moreover from j assms(1) have "drop 3 p ! j = p ! (3 + j)" by simp
    ultimately show ?thesis
      using j assms(2-5) by (simp add: residuals_of_func_global)
  qed
  have "residuals_loop func_global p [allx, ally, allyerr] (enumerate (drop 3 p)) [] =
        Inr (concat (map ?R [0..<length (drop 3 p)]))"
    by (rule residuals_loop_enumerate) (rule step)
  then show ?thesis
    unfolding leastsq_function_global_def leastsq_function_with_def len .
qed

text \<open>Two datasets, of one and of two points.\<close>

theorem leastsq_function_global_concatenates_witness:
  "length [3, 2, 0, 5, 7 :: real] = 3 + 2
   \<and> leastsq_function_global [3, 2, 0, 5, 7] [[[0], [0, 0]], [[4], [5, 9]], [[1], [2, 3]]]
       = Inr [1, 1, 2]"
proof -
  have two: "i < 2 \<longleftrightarrow> i = 0 \<or> i = 1" for i :: nat
    by auto
  show ?thesis
    using leastsq_function_global_concatenates
      [of "[3, 2, 0, 5, 7]" 2 "[[0], [0, 0]]" "[[4], [5, 9]]" "[[1], [2, 3]]"]
    by (simp add: two expm1_def upt_conv_Cons)
qed

subsection \<open>Error analysis\<close>

text \<open>
  The singular values come in non-increasing order, so those above the threshold are a
  prefix, and the rows of \<open>VT\<close> kept by \<^verbatim>\<open>VT[:s.size]\<close> are theirs.
\<close>

lemma retained_prefix:
  assumes "sorted_wrt (\<lambda>a b. b \<le> a) s"
  shows "\<exists>r\<le>length s. (\<forall>j<length s. thr < s ! j \<longleftrightarrow> j < r) \<and> retained s thr = take r s"
  using assms
proof (induction s)
  case Nil
  then show ?case by (simp add: retained_def)
next
  case (Cons x xs)
  then have below: "\<forall>y\<in>set xs. y \<le> x" and sorted: "sorted_wrt (\<lambda>a b. b \<le> a) xs"
    by simp_all
  show ?case
  proof (cases "thr < x")
    case True
    from Cons.IH [OF sorted] obtain r where r: "r \<le> length xs"
      "\<forall>j<length xs. thr < xs ! j \<longleftrightarrow> j < r" "retained xs thr = take r xs"
      by blast
    have "\<forall>j<length (x # xs). thr < (x # xs) ! j \<longleftrightarrow> j < Suc r"
      using True r(2) by (auto simp: nth_Cons split: nat.splits)
    moreover have "retained (x # xs) thr = take (Suc r) (x # xs)"
      using True r(3) by (simp add: retained_def)
    ultimately show ?thesis
      using r(1) by (intro exI [of _ "Suc r"]) simp
  next
    case False
    with below have none: "\<forall>y\<in>set (x # xs). \<not> thr < y"
      by auto
    then have "retained (x # xs) thr = take 0 (x # xs)"
      by (simp add: retained_def)
    moreover have "\<forall>j<length (x # xs). thr < (x # xs) ! j \<longleftrightarrow> j < 0"
      using none nth_mem by blast
    ultimately show ?thesis
      by (intro exI [of _ 0]) simp
  qed
qed

lemma filter_less_upt: "r \<le> n \<Longrightarrow> filter (\<lambda>j. j < r) [0..<n] = [0..<r]"
  by (induction n) (auto simp: le_Suc_eq)

lemma retained_sorted:
  assumes "sorted_wrt (\<lambda>a b. b \<le> a) s"
  shows "retained s thr = take (length (retained s thr)) s"
    and "filter (\<lambda>j. thr < s ! j) [0..<length s] = [0..<length (retained s thr)]"
proof -
  from retained_prefix [OF assms, of thr] obtain r where r: "r \<le> length s"
    "\<forall>j<length s. thr < s ! j \<longleftrightarrow> j < r" "retained s thr = take r s"
    by blast
  then have len: "length (retained s thr) = r"
    by simp
  with r(3) show "retained s thr = take (length (retained s thr)) s"
    by simp
  have "filter (\<lambda>j. thr < s ! j) [0..<length s] = filter (\<lambda>j. j < r) [0..<length s]"
    using r(2) by (intro filter_cong) simp_all
  with r(1) len show "filter (\<lambda>j. thr < s ! j) [0..<length s] = [0..<length (retained s thr)]"
    by (simp add: filter_less_upt)
qed

lemma length_retained_le: "length (retained s thr) \<le> length s"
  by (simp add: retained_def)

lemma sum_list_map2_div_mult:
  assumes "length xs = n" and "length ys = n" and "length zs = n"
  shows "sum_list (map2 (*) (map2 (/) xs ys) zs) = (\<Sum>j\<leftarrow>[0..<n]. xs ! j / ys ! j * zs ! j)"
proof -
  have "map2 (*) (map2 (/) xs ys) zs = map (\<lambda>j. xs ! j / ys ! j * zs ! j) [0..<n]"
    using assms by (intro nth_equalityI) simp_all
  then show ?thesis by simp
qed

lemma pcov_product:
  assumes r: "r \<le> length (rows VT)" and k: "ncols VT = k" and sr: "length s' = r"
  shows "bnd (mat_div_vec (mat_T (take_rows r VT)) (map (\<lambda>v. v ^ 2) s')) (\<lambda>A.
           np_dot A (take_rows r VT)) =
         Inr \<lparr>ncols = k,
              rows = map (\<lambda>a. map (\<lambda>b. \<Sum>j\<leftarrow>[0..<r].
                       rows VT ! j ! a / (s' ! j) ^ 2 * rows VT ! j ! b) [0..<k]) [0..<k]\<rparr>"
proof -
  let ?V = "take r (rows VT)"
  have mn: "min (length (rows VT)) r = r"
    using r by simp
  then have lenV: "length ?V = r"
    by simp
  have T: "mat_T (take_rows r VT) = \<lparr>ncols = r, rows = map (\<lambda>a. map (\<lambda>row. row ! a) ?V) [0..<k]\<rparr>"
    by (simp add: mat_T_def take_rows_def column_def mn k)
  have D: "mat_div_vec (mat_T (take_rows r VT)) (map (\<lambda>v. v ^ 2) s') =
        Inr \<lparr>ncols = r,
             rows = map (\<lambda>a. map2 (/) (map (\<lambda>row. row ! a) ?V) (map (\<lambda>v. v ^ 2) s')) [0..<k]\<rparr>"
    unfolding T by (simp add: mat_div_vec_def sr comp_def)
  have entry: "sum_list (map2 (*) (map2 (/) (map (\<lambda>row. row ! a) ?V) (map (\<lambda>v. v ^ 2) s'))
                  (map (\<lambda>row. row ! b) ?V)) =
               (\<Sum>j\<leftarrow>[0..<r]. rows VT ! j ! a / (s' ! j) ^ 2 * rows VT ! j ! b)" for a b
  proof -
    have "sum_list (map2 (*) (map2 (/) (map (\<lambda>row. row ! a) ?V) (map (\<lambda>v. v ^ 2) s'))
                  (map (\<lambda>row. row ! b) ?V)) =
          (\<Sum>j\<leftarrow>[0..<r]. map (\<lambda>row. row ! a) ?V ! j / map (\<lambda>v. v ^ 2) s' ! j
                             * map (\<lambda>row. row ! b) ?V ! j)"
      by (rule sum_list_map2_div_mult) (simp_all add: mn sr)
    also have "\<dots> = (\<Sum>j\<leftarrow>[0..<r]. rows VT ! j ! a / (s' ! j) ^ 2 * rows VT ! j ! b)"
      using mn sr by (intro arg_cong [where f = sum_list] map_cong) simp_all
    finally show ?thesis .
  qed
  show ?thesis
    unfolding D by (simp add: np_dot_def take_rows_def mn k column_def entry comp_def)
qed

lemma pcov_formula_sorted:
  assumes "sorted_wrt (\<lambda>a b. b \<le> a) s"
  shows "pcov_formula s VT thr c a b =
           (\<Sum>j\<leftarrow>[0..<length (retained s thr)].
              rows VT ! j ! a / (retained s thr ! j) ^ 2 * rows VT ! j ! b) * c"
proof -
  let ?r = "length (retained s thr)"
  have nth: "retained s thr ! j = s ! j" if "j < ?r" for j
  proof -
    have "retained s thr ! j = take ?r s ! j"
      using retained_sorted(1) [OF assms, of thr] by simp
    with that show ?thesis by simp
  qed
  have "(\<Sum>j\<leftarrow>[0..<?r]. rows VT ! j ! a * (1 / (s ! j) ^ 2) * rows VT ! j ! b) =
        (\<Sum>j\<leftarrow>[0..<?r]. rows VT ! j ! a / (retained s thr ! j) ^ 2 * rows VT ! j ! b)"
    by (intro arg_cong [where f = sum_list] map_cong) (simp_all add: nth)
  then show ?thesis
    by (simp only: pcov_formula_def retained_sorted(2) [OF assms])
qed

lemma s_sq_of_eq:
  assumes "length (res_fun res) = n" and "length (res_x res) = k"
  shows "s_sq_of res = 2 * res_cost res / (real n - real k)"
  using assms by (simp add: s_sq_of_def dof_def)

lemma error_analysis_pcov_eq:
  assumes n: "length (res_fun res) = n" and k: "length (res_x res) = k" and k0: "0 < k"
    and jac: "shape (res_jac res) = (n, k)"
    and svd: "svd (res_jac res) = Inr (U, s, VT)"
    and s: "length s = k" "sorted_wrt (\<lambda>a b. b \<le> a) s"
    and VT: "length (rows VT) = k" "ncols VT = k"
  shows "error_analysis_pcov svd res =
           Inr (\<lparr>ncols = k,
                 rows = map (\<lambda>a. map (\<lambda>b.
                          pcov_formula s VT (eps * real (max n k) * s ! 0)
                            (2 * res_cost res / (real n - real k)) a b) [0..<k]) [0..<k]\<rparr>,
                2 * res_cost res / (real n - real k))"
proof -
  let ?thr = "eps * real (max n k) * s ! 0"
  let ?c = "2 * res_cost res / (real n - real k)"
  let ?s' = "retained s ?thr"
  let ?r = "length ?s'"
  have thr: "threshold_of (res_jac res) (s ! 0) = ?thr"
    using jac by (simp add: threshold_of_def)
  have r: "?r \<le> length (rows VT)"
    using length_retained_le [of s ?thr] s(1) VT(1) by simp
  have s0: "getitem s 0 = Inr (s ! 0)"
    using s(1) k0 by simp
  have prod: "bnd (mat_div_vec (mat_T (take_rows ?r VT)) (map (\<lambda>v. v ^ 2) ?s')) (\<lambda>A.
           np_dot A (take_rows ?r VT)) =
         Inr \<lparr>ncols = k,
              rows = map (\<lambda>a. map (\<lambda>b. \<Sum>j\<leftarrow>[0..<?r].
                       rows VT ! j ! a / (?s' ! j) ^ 2 * rows VT ! j ! b) [0..<k]) [0..<k]\<rparr>"
    by (rule pcov_product [OF r VT(2) refl])
  have "error_analysis_pcov svd res =
          bnd (bnd (mat_div_vec (mat_T (take_rows ?r VT)) (map (\<lambda>v. v ^ 2) ?s')) (\<lambda>A.
                 np_dot A (take_rows ?r VT)))
            (\<lambda>P. Inr (mat_scale P ?c, ?c))"
    by (simp add: error_analysis_pcov_def svd s0 thr s_sq_of_eq [OF n k] Let_def bnd_def
        split: sum.splits)
  also have "\<dots> = Inr (\<lparr>ncols = k,
                 rows = map (\<lambda>a. map (\<lambda>b. pcov_formula s VT ?thr ?c a b) [0..<k]) [0..<k]\<rparr>, ?c)"
    unfolding prod by (simp add: mat_scale_def pcov_formula_sorted [OF s(2)] comp_def)
  finally show ?thesis .
qed

text \<open>
  Claim C2. For every least-squares result with \<open>n\<close> residuals, \<open>k\<close> parameters, \<open>n > k\<close>,
  and Jacobian \<open>J\<close>, \<^verbatim>\<open>error_analysis\<close> returns \<open>(sqrt(diag(pcov)), s_sq)\<close>, where
  \<open>s_sq = 2 * cost / (n - k)\<close>, which is the sum of the squared residuals over the degrees
  of freedom, and \<open>pcov = V diag(1/s\<^sup>2) V\<^sup>T s_sq\<close> over the singular values that exceed
  \<open>eps * max(J.shape) * s[0]\<close>.

  What is assumed of the library is what it documents: \<^verbatim>\<open>svd\<close> returns \<open>k\<close> singular values
  in non-increasing order and a \<open>k\<close> by \<open>k\<close> matrix \<open>VT\<close>, and the cost of the result is
  half the sum of the squared residuals. There is at least one parameter, so that
  \<open>s[0]\<close> exists.
\<close>

theorem error_analysis_covariance:
  assumes n: "length (res_fun res) = n" and k: "length (res_x res) = k"
    and nk: "k < n" and k0: "0 < k"
    and jac: "shape (res_jac res) = (n, k)"
    and svd: "svd (res_jac res) = Inr (U, s, VT)"
    and s: "length s = k" "sorted_wrt (\<lambda>a b. b \<le> a) s"
    and VT: "length (rows VT) = k" "ncols VT = k"
    and square: "list_all (\<lambda>r. length r = k) (rows VT)"
    and cost: "res_cost res = (\<Sum>r\<leftarrow>res_fun res. r ^ 2) / 2"
  shows "error_analysis svd res =
           Inr (map (\<lambda>a. sqrt (pcov_formula s VT (eps * real (max n k) * s ! 0)
                                 (2 * res_cost res / (real n - real k)) a a)) [0..<k],
                2 * res_cost res / (real n - real k))
       \<and> error_analysis_pcov svd res =
           Inr (\<lparr>ncols = k,
                 rows = map (\<lambda>a. map (\<lambda>b.
                          pcov_formula s VT (eps * real (max n k) * s ! 0)
                            (2 * res_cost res / (real n - real k)) a b) [0..<k]) [0..<k]\<rparr>,
                2 * res_cost res / (real n - real k))
       \<and> 2 * res_cost res / (real n - real k) = (\<Sum>r\<leftarrow>res_fun res. r ^ 2) / (real n - real k)"
proof -
  have pcov: "error_analysis_pcov svd res =
           Inr (\<lparr>ncols = k,
                 rows = map (\<lambda>a. map (\<lambda>b.
                          pcov_formula s VT (eps * real (max n k) * s ! 0)
                            (2 * res_cost res / (real n - real k)) a b) [0..<k]) [0..<k]\<rparr>,
                2 * res_cost res / (real n - real k))"
    using n k k0 jac svd s VT by (rule error_analysis_pcov_eq)
  have errs: "error_analysis svd res =
           Inr (map (\<lambda>a. sqrt (pcov_formula s VT (eps * real (max n k) * s ! 0)
                                 (2 * res_cost res / (real n - real k)) a a)) [0..<k],
                2 * res_cost res / (real n - real k))"
    unfolding error_analysis_def pcov
    by (simp add: np_diag_def np_sqrt_def comp_def)
  have chi: "2 * res_cost res / (real n - real k) =
      (\<Sum>r\<leftarrow>res_fun res. r ^ 2) / (real n - real k)"
    by (simp add: cost)
  show ?thesis
    by (intro conjI errs pcov chi)
qed

text \<open>
  Three residuals and two parameters; the Jacobian has the singular values 2 and 1, and
  the function given for \<^verbatim>\<open>svd\<close> returns its decomposition.
\<close>

theorem error_analysis_covariance_witness:
  "error_analysis
     (\<lambda>J. Inr (\<lparr>ncols = 2, rows = [[1, 0], [0, 1], [0, 0]]\<rparr>, [2, 1],
                \<lparr>ncols = 2, rows = [[1, 0], [0, 1]]\<rparr>))
     \<lparr>res_x = [150, 3000], res_cost = 5 / 2, res_fun = [1, 2, 0],
      res_jac = \<lparr>ncols = 2, rows = [[2, 0], [0, 1], [0, 0]]\<rparr>\<rparr>
   = Inr ([sqrt 5 / 2, sqrt 5], 5)"
proof -
  have small: "6 * eps < 1" "3 * eps < 1"
    by (simp_all add: eps_def)
  have root: "sqrt (5 / 4) * 2 = sqrt 5"
    by (simp add: real_sqrt_divide)
  show ?thesis
    using error_analysis_covariance
      [of "\<lparr>res_x = [150, 3000], res_cost = 5 / 2, res_fun = [1, 2, 0],
            res_jac = \<lparr>ncols = 2, rows = [[2, 0], [0, 1], [0, 0]]\<rparr>\<rparr>" 3 2
          "\<lambda>J. Inr (\<lparr>ncols = 2, rows = [[1, 0], [0, 1], [0, 0]]\<rparr>, [2, 1],
                \<lparr>ncols = 2, rows = [[1, 0], [0, 1]]\<rparr>)"
          "\<lparr>ncols = 2, rows = [[1, 0], [0, 1], [0, 0]]\<rparr>" "[2, 1]"
          "\<lparr>ncols = 2, rows = [[1, 0], [0, 1]]\<rparr>"]
    by (simp add: shape_def pcov_formula_def upt_conv_Cons small root)
qed

lemma eps_pos: "0 < eps"
  by (simp add: eps_def)

text \<open>A singular value of at least \<open>2^(-537)\<close> has a square that does not underflow.\<close>

lemma divides_by_zero_none: "True \<notin> set z \<Longrightarrow> \<not> divides_by_zero M z"
  by (cases z) (auto simp: divides_by_zero_def)

lemma square_above_underflow:
  assumes "1 / 2 ^ 537 \<le> v"
  shows "\<not> f64_square_is_zero v"
proof -
  have "(1 / 2 ^ 537) ^ 2 \<le> v ^ 2"
    using assms by (intro power_mono) simp_all
  moreover have "(1 / 2 ^ 537 :: real) ^ 2 = 1 / 2 ^ 1074"
    by (simp add: power_divide flip: power_mult)
  moreover have "(1 / 2 ^ 1075 :: real) < 1 / 2 ^ 1074"
    by simp
  ultimately show ?thesis
    by (simp add: f64_square_is_zero_def)
qed

text \<open>
  Claim C10, as the code has it. For every least-squares result with more residuals than
  parameters, the degrees of freedom \<open>res.fun.size - res.x.size\<close> are not zero, and every
  singular value that \<^verbatim>\<open>error_analysis\<close> keeps is strictly positive, since those that do
  not exceed the threshold are discarded first (the singular values are those \<^verbatim>\<open>svd\<close>
  returned, none negative). When every singular value it keeps is at least \<open>2^(-537)\<close>,
  about \<open>1.5e-162\<close>, the call divides by zero nowhere.
\<close>

theorem error_analysis_divisions:
  assumes "length (res_x res) < length (res_fun res)"
    and "svd (res_jac res) = Inr (U, s, VT)"
    and "\<forall>v \<in> set s. 0 \<le> v"
  shows "dof res \<noteq> 0
       \<and> (\<forall>v \<in> set (retained s (threshold_of (res_jac res) (s ! 0))). 0 < v)
       \<and> ((\<forall>v \<in> set (retained s (threshold_of (res_jac res) (s ! 0))). 1 / 2 ^ 537 \<le> v)
            \<longrightarrow> error_analysis_warnings svd res = [])"
proof (intro conjI ballI impI)
  show dof: "dof res \<noteq> 0"
    using assms(1) by (simp add: dof_def)
  show "0 < v" if v: "v \<in> set (retained s (threshold_of (res_jac res) (s ! 0)))" for v
  proof -
    from v have "s \<noteq> []" and above: "threshold_of (res_jac res) (s ! 0) < v"
      by (auto simp: retained_def)
    then have "s ! 0 \<in> set s"
      by simp
    with assms(3) have "0 \<le> s ! 0"
      by blast
    then have "0 \<le> threshold_of (res_jac res) (s ! 0)"
      using eps_pos by (simp add: threshold_of_def)
    with above show ?thesis
      by simp
  qed
  show "error_analysis_warnings svd res = []"
    if big: "\<forall>v \<in> set (retained s (threshold_of (res_jac res) (s ! 0))). 1 / 2 ^ 537 \<le> v"
  proof -
    have "\<not> f64_square_is_zero v"
      if "v \<in> set (retained s (threshold_of (res_jac res) (s ! 0)))" for v
      using big that by (intro square_above_underflow) blast
    then have "True \<notin> set (map f64_square_is_zero
        (retained s (threshold_of (res_jac res) (s ! 0))))"
      by auto
    then have "\<not> divides_by_zero M
        (map f64_square_is_zero (retained s (threshold_of (res_jac res) (s ! 0))))" for M
      by (rule divides_by_zero_none)
    then show ?thesis
      using dof by (simp add: error_analysis_warnings_def assms(2) getitem_def Let_def)
  qed
qed

text \<open>The example above: the singular values 2 and 1 are kept, and nothing is warned.\<close>

theorem error_analysis_divisions_witness:
  "dof \<lparr>res_x = [150, 3000], res_cost = 5 / 2, res_fun = [1, 2, 0],
        res_jac = \<lparr>ncols = 2, rows = [[2, 0], [0, 1], [0, 0]]\<rparr>\<rparr> = 1
   \<and> retained [2, 1] (threshold_of \<lparr>ncols = 2, rows = [[2, 0], [0, 1], [0, 0]]\<rparr> ([2, 1] ! 0))
       = [2, 1]
   \<and> error_analysis_warnings
       (\<lambda>J. Inr (\<lparr>ncols = 2, rows = [[1, 0], [0, 1], [0, 0]]\<rparr>, [2, 1],
                \<lparr>ncols = 2, rows = [[1, 0], [0, 1]]\<rparr>))
       \<lparr>res_x = [150, 3000], res_cost = 5 / 2, res_fun = [1, 2, 0],
        res_jac = \<lparr>ncols = 2, rows = [[2, 0], [0, 1], [0, 0]]\<rparr>\<rparr> = []"
proof -
  have small: "6 * eps < 1" "3 * eps < 1"
    by (simp_all add: eps_def)
  have kept: "retained [2, 1] (threshold_of \<lparr>ncols = 2, rows = [[2, 0], [0, 1], [0, 0]]\<rparr> ([2, 1] ! 0))
       = [2, 1]"
    by (simp add: retained_def threshold_of_def shape_def small)
  have big: "(1 / 2 ^ 537 :: real) \<le> 1"
    by simp
  then have big2: "(1 / 2 ^ 537 :: real) \<le> 2"
    by linarith
  show ?thesis
    using error_analysis_divisions
      [of "\<lparr>res_x = [150, 3000], res_cost = 5 / 2, res_fun = [1, 2, 0],
            res_jac = \<lparr>ncols = 2, rows = [[2, 0], [0, 1], [0, 0]]\<rparr>\<rparr>"
          "\<lambda>J. Inr (\<lparr>ncols = 2, rows = [[1, 0], [0, 1], [0, 0]]\<rparr>, [2, 1],
                \<lparr>ncols = 2, rows = [[1, 0], [0, 1]]\<rparr>)"
          "\<lparr>ncols = 2, rows = [[1, 0], [0, 1], [0, 0]]\<rparr>" "[2, 1]"
          "\<lparr>ncols = 2, rows = [[1, 0], [0, 1]]\<rparr>"]
      kept big big2
    by (simp add: dof_def)
qed

text \<open>
  Without the bound the claim fails. The Jacobian with the rows \<open>2^(-600)\<close> and 0 is not
  zero and has two rows and one column; its singular value \<open>2^(-600)\<close> exceeds the
  threshold \<open>eps * 2 * 2^(-600)\<close> and is kept, its \<^verbatim>\<open>float64\<close> square is \<^verbatim>\<open>0.0\<close>, and
  \<^verbatim>\<open>VT.T / s**2\<close> divides by zero.
\<close>

theorem error_analysis_underflow_counterexample:
  "length (res_x \<lparr>res_x = [1], res_cost = 0, res_fun = [0, 0],
                  res_jac = \<lparr>ncols = 1, rows = [[1 / 2 ^ 600], [0]]\<rparr>\<rparr>)
     < length (res_fun \<lparr>res_x = [1], res_cost = 0, res_fun = [0, 0],
                  res_jac = \<lparr>ncols = 1, rows = [[1 / 2 ^ 600], [0]]\<rparr>\<rparr>)
   \<and> \<lparr>ncols = 1, rows = [[1 / 2 ^ 600], [0]]\<rparr> \<noteq> \<lparr>ncols = 1, rows = [[0], [0]]\<rparr>
   \<and> retained [1 / 2 ^ 600] (threshold_of \<lparr>ncols = 1, rows = [[1 / 2 ^ 600], [0]]\<rparr> (1 / 2 ^ 600))
       = [1 / 2 ^ 600]
   \<and> f64_square_is_zero (1 / 2 ^ 600)
   \<and> error_analysis_warnings
       (\<lambda>J. Inr (\<lparr>ncols = 1, rows = [[1], [0]]\<rparr>, [1 / 2 ^ 600], \<lparr>ncols = 1, rows = [[1]]\<rparr>))
       \<lparr>res_x = [1], res_cost = 0, res_fun = [0, 0],
        res_jac = \<lparr>ncols = 1, rows = [[1 / 2 ^ 600], [0]]\<rparr>\<rparr> = [DivideByZero]"
proof -
  have small: "2 * eps < 1"
    by (simp add: eps_def)
  have kept: "retained [1 / 2 ^ 600] (threshold_of \<lparr>ncols = 1, rows = [[1 / 2 ^ 600], [0]]\<rparr> (1 / 2 ^ 600))
       = [1 / 2 ^ 600]"
    using small by (simp add: retained_def threshold_of_def shape_def)
  have zero: "f64_square_is_zero (1 / 2 ^ 600)"
    by (simp add: f64_square_is_zero_def power_divide flip: power_mult)
  show ?thesis
    using kept zero
    by (simp add: error_analysis_warnings_def dof_def Let_def divides_by_zero_def mat_T_def
        take_rows_def column_def)
qed

subsection \<open>Preprocessing\<close>

lemma fold_max_Max: "xs \<noteq> [] \<Longrightarrow> fold max (tl xs) (hd xs) = Max (set xs)"
proof (cases xs)
  case Nil
  assume "xs \<noteq> []"
  with Nil show ?thesis by simp
next
  case (Cons a list)
  then show ?thesis
    using Max.set_eq_fold [of a list] by simp
qed

lemma bool_index_map: "bool_index rs (map P rs) = Inr (filter P rs)"
proof -
  have "map fst (filter snd (zip rs (map P rs))) = filter P rs"
    by (induction rs) simp_all
  then show ?thesis
    by (simp add: bool_index_def)
qed

lemma np_max_intensity: "rs \<noteq> [] \<Longrightarrow> np_max (map snd rs) = Inr (intensity_max rs)"
  by (simp add: np_max_def intensity_max_def)

lemma discard_before_max_unique:
  assumes "length (max_rows rs) = 1" and "length rs \<noteq> 1"
  shows "discard_before_max (Array2 rs) = Inr (later_rows rs)"
proof -
  from assms(1) have ne: "rs \<noteq> []"
    by (auto simp: max_rows_def)
  from assms(1) obtain r where r: "max_rows rs = [r]"
    by (cases "max_rows rs") simp_all
  then have tmax: "map fst (filter (\<lambda>r. snd r = intensity_max rs) rs) = [time_of_max rs]"
    by (simp add: time_of_max_def max_rows_def)
  have "np_binop (\<lambda>a b. b < a) (map fst rs) [time_of_max rs] =
          Inr (map (\<lambda>r. time_of_max rs < fst r) rs)"
    using assms(2) by (simp add: np_binop_def comp_def)
  then show ?thesis
    by (simp add: discard_before_max_def rows2d_def np_max_intensity [OF ne] tmax
        bool_index_map later_rows_def)
qed

lemma dataset_of_nonempty:
  "rs \<noteq> [] \<Longrightarrow> dataset_of rs =
     Inr \<lparr>col_t = map (\<lambda>r. fst r - fst (hd rs)) rs, col_F = map snd rs,
          col_Ferr = map sqrt (map snd rs)\<rparr>"
  by (cases rs) (simp_all add: dataset_of_def sub_scalar_def np_sqrt_def)

lemma dataset_of_empty: "dataset_of [] = Inl IndexError"
  by (simp add: dataset_of_def)

text \<open>
  Claim C8, as the code has it. For every loaded table whose intensity attains its
  maximum in a single row, and in which some row has a time strictly greater than the
  time of that row, the preprocessing keeps exactly the rows whose time is strictly
  greater than the time of the maximum, in their order (the row of the maximum is not
  among them), and subtracts the first kept time from every time, so that the first
  time becomes 0.
\<close>

theorem preprocess_retains_later_rows:
  assumes "length (max_rows rs) = 1" and "later_rows rs \<noteq> []"
  shows "discard_before_max (Array2 rs) = Inr (later_rows rs)
       \<and> later_rows rs = filter (\<lambda>r. time_of_max rs < fst r) rs
       \<and> hd (max_rows rs) \<notin> set (later_rows rs)
       \<and> preprocess (Array2 rs) =
           Inr \<lparr>col_t = map (\<lambda>r. fst r - fst (hd (later_rows rs))) (later_rows rs),
                col_F = map snd (later_rows rs),
                col_Ferr = map sqrt (map snd (later_rows rs))\<rparr>
       \<and> hd (map (\<lambda>r. fst r - fst (hd (later_rows rs))) (later_rows rs)) = 0"
proof -
  have "length rs \<noteq> 1"
  proof
    assume "length rs = 1"
    then obtain r where rs: "rs = [r]"
      by (cases rs) simp_all
    with assms(1) have "max_rows rs = [r]"
      by (simp add: max_rows_def split: if_splits)
    with rs have "later_rows rs = []"
      by (simp add: later_rows_def time_of_max_def)
    with assms(2) show False by simp
  qed
  with assms(1) have d: "discard_before_max (Array2 rs) = Inr (later_rows rs)"
    by (rule discard_before_max_unique)
  moreover have "hd (max_rows rs) \<notin> set (later_rows rs)"
    by (simp add: later_rows_def time_of_max_def)
  moreover have "preprocess (Array2 rs) =
           Inr \<lparr>col_t = map (\<lambda>r. fst r - fst (hd (later_rows rs))) (later_rows rs),
                col_F = map snd (later_rows rs),
                col_Ferr = map sqrt (map snd (later_rows rs))\<rparr>"
    by (simp add: preprocess_def d dataset_of_nonempty [OF assms(2)])
  moreover have "hd (map (\<lambda>r. fst r - fst (hd (later_rows rs))) (later_rows rs)) = 0"
    using assms(2) by (simp add: hd_map)
  ultimately show ?thesis
    by (simp add: later_rows_def)
qed

text \<open>Four rows, the maximum in the second.\<close>

theorem preprocess_retains_later_rows_witness:
  "length (max_rows [(0, 1), (1, 5), (2, 3), (3, 2)]) = 1
   \<and> later_rows [(0, 1), (1, 5), (2, 3), (3, 2)] = [(2, 3), (3, 2)]
   \<and> preprocess (Array2 [(0, 1), (1, 5), (2, 3), (3, 2)]) =
       Inr \<lparr>col_t = [0, 1], col_F = [3, 2], col_Ferr = [sqrt 3, sqrt 2]\<rparr>"
proof -
  have m: "max_rows [(0, 1), (1, 5), (2, 3), (3, 2)] = [(1, 5)]"
    by (simp add: max_rows_def intensity_max_def)
  have l: "later_rows [(0, 1), (1, 5), (2, 3), (3, 2)] = [(2, 3), (3, 2)]"
    by (simp add: later_rows_def time_of_max_def m)
  show ?thesis
    using preprocess_retains_later_rows [of "[(0, 1), (1, 5), (2, 3), (3, 2)]"]
    by (simp add: m l)
qed

text \<open>
  Without a row after the maximum the claim fails: the maximum of this table is in a
  single row, its last; no row is kept, and \<^verbatim>\<open>d[0,0]\<close> raises IndexError.
\<close>

theorem preprocess_maximum_last_counterexample:
  "length (max_rows [(0, 1), (1, 5)]) = 1
   \<and> discard_before_max (Array2 [(0, 1), (1, 5)]) = Inr []
   \<and> preprocess (Array2 [(0, 1), (1, 5)]) = Inl IndexError"
proof -
  have m: "max_rows [(0, 1), (1, 5)] = [(1, 5)]"
    by (simp add: max_rows_def intensity_max_def)
  have "later_rows [(0, 1), (1, 5)] = []"
    by (simp add: later_rows_def time_of_max_def m)
  then have "discard_before_max (Array2 [(0, 1), (1, 5)]) = Inr []"
    using discard_before_max_unique [of "[(0, 1), (1, 5)]"] by (simp add: m)
  then show ?thesis
    by (simp add: m preprocess_def dataset_of_empty)
qed

text \<open>Conversely, the preprocessing succeeds on such tables only.\<close>

lemma intensity_max_attained: "rs \<noteq> [] \<Longrightarrow> max_rows rs \<noteq> []"
proof -
  assume ne: "rs \<noteq> []"
  then have "intensity_max rs = Max (set (map snd rs))"
    unfolding intensity_max_def by (intro fold_max_Max) simp
  moreover have "Max (set (map snd rs)) \<in> set (map snd rs)"
    using ne by (intro Max_in) simp_all
  ultimately obtain r where "r \<in> set rs" "snd r = intensity_max rs"
    by auto
  then show ?thesis
    by (auto simp: max_rows_def filter_empty_conv)
qed

lemma filter_full_length: "length (filter P xs) = length xs \<Longrightarrow> filter P xs = xs"
  by (metis filter_id_conv length_filter_less less_irrefl)

lemma discard_before_max_all_max:
  assumes "rs \<noteq> []" and "length (max_rows rs) = length rs"
  shows "discard_before_max (Array2 rs) = Inr []"
proof -
  from assms(2) have "filter (\<lambda>r. snd r = intensity_max rs) rs = rs"
    unfolding max_rows_def by (rule filter_full_length)
  moreover have "map2 (\<lambda>a b. b < a) (map fst rs) (map fst rs) = map (\<lambda>r. False) rs"
    by (induction rs) simp_all
  ultimately show ?thesis
    by (simp add: discard_before_max_def rows2d_def np_max_intensity [OF assms(1)] bool_index_map)
qed

lemma discard_before_max_no_broadcast:
  assumes "rs \<noteq> []" and "length (max_rows rs) \<noteq> length rs" and "length (max_rows rs) \<noteq> 1"
  shows "discard_before_max (Array2 rs) = Inl ValueError"
proof -
  from assms(1) have "1 \<le> length (max_rows rs)"
    using intensity_max_attained [of rs] by (cases "max_rows rs") simp_all
  moreover have "length (max_rows rs) \<le> length rs"
    by (simp add: max_rows_def)
  ultimately have "length rs \<noteq> 1"
    using assms(2,3) by linarith
  then have "np_binop (\<lambda>a b. b < a) (map fst rs)
      (map fst (filter (\<lambda>r. snd r = intensity_max rs) rs)) = Inl ValueError"
    using assms(2,3) by (simp add: np_binop_def max_rows_def)
  then show ?thesis
    by (simp add: discard_before_max_def rows2d_def np_max_intensity [OF assms(1)])
qed

lemma preprocess_Inr:
  assumes "preprocess d = Inr ds"
  obtains rs where "d = Array2 rs" and "length (max_rows rs) = 1" and "later_rows rs \<noteq> []"
    and "ds = \<lparr>col_t = map (\<lambda>r. fst r - fst (hd (later_rows rs))) (later_rows rs),
              col_F = map snd (later_rows rs),
              col_Ferr = map sqrt (map snd (later_rows rs))\<rparr>"
proof -
  from assms obtain rs where d: "d = Array2 rs"
    by (cases d) (simp_all add: preprocess_def discard_before_max_def rows2d_def)
  from assms d have ne: "rs \<noteq> []"
    by (auto simp: preprocess_def discard_before_max_def rows2d_def np_max_def)
  have not_all: "length (max_rows rs) \<noteq> length rs"
  proof
    assume "length (max_rows rs) = length rs"
    with ne have "discard_before_max (Array2 rs) = Inr []"
      by (rule discard_before_max_all_max)
    with assms d show False
      by (simp add: preprocess_def dataset_of_empty)
  qed
  have one: "length (max_rows rs) = 1"
  proof (rule ccontr)
    assume "length (max_rows rs) \<noteq> 1"
    with ne not_all have "discard_before_max (Array2 rs) = Inl ValueError"
      by (rule discard_before_max_no_broadcast)
    with assms d show False
      by (simp add: preprocess_def)
  qed
  from one not_all have kept: "discard_before_max (Array2 rs) = Inr (later_rows rs)"
    by (intro discard_before_max_unique) simp_all
  with assms d have ds: "dataset_of (later_rows rs) = Inr ds"
    by (simp add: preprocess_def)
  then have later: "later_rows rs \<noteq> []"
    by (auto simp: dataset_of_empty)
  with ds have "ds = \<lparr>col_t = map (\<lambda>r. fst r - fst (hd (later_rows rs))) (later_rows rs),
              col_F = map snd (later_rows rs),
              col_Ferr = map sqrt (map snd (later_rows rs))\<rparr>"
    by (simp add: dataset_of_nonempty)
  with d one later show ?thesis
    by (rule that)
qed

subsection \<open>The pickled table\<close>

lemma squeeze_Array2: "squeeze rs = Array2 rs' \<Longrightarrow> rs' = rs"
  by (auto simp: squeeze_def split: list.splits)

lemma loadtxt_Inr:
  assumes "loadtxt p n w = (Inr d, w')"
  obtains ls rs where "files w p = Some (TextFile ls)" and "parse_rows (drop n ls) = Inr rs"
    and "d = squeeze rs" and "files w' = files w"
proof -
  from assms obtain ls where ls: "files w p = Some (TextFile ls)"
    by (auto simp: loadtxt_def split: option.splits fs_file.splits)
  with assms obtain rs where "parse_rows (drop n ls) = Inr rs" "d = squeeze rs"
    by (cases "parse_rows (drop n ls)") (auto simp: loadtxt_def)
  moreover from assms have "files w' = files w"
    by (auto simp: loadtxt_def record_op_def)
  ultimately show ?thesis
    using ls by (intro that)
qed

lemma load_dataset_Inr:
  assumes "load_dataset conc data w = (Inr data', w')"
  obtains ds where "data' = dict_set data conc ds" and "column_ok (files w) (conc, ds)"
    and "files w' = files w"
proof -
  obtain r1 w1 where l: "loadtxt (quencher_path conc) 9 w = (r1, w1)"
    by (cases "loadtxt (quencher_path conc) 9 w")
  with assms obtain d where r1: "r1 = Inr d"
    by (cases r1) (simp_all add: load_dataset_def io_bnd_def)
  with assms l obtain ds where ds: "preprocess d = Inr ds" and data': "data' = dict_set data conc ds"
    and w': "w' = w1"
    by (cases "preprocess d") (simp_all add: load_dataset_def io_bnd_def io_lift_def)
  from l r1 obtain ls rs where src: "files w (quencher_path conc) = Some (TextFile ls)"
    "parse_rows (drop 9 ls) = Inr rs" "d = squeeze rs" "files w1 = files w"
    by (auto elim: loadtxt_Inr)
  from ds obtain rs' where rs': "d = Array2 rs'"
    "ds = \<lparr>col_t = map (\<lambda>r. fst r - fst (hd (later_rows rs'))) (later_rows rs'),
              col_F = map snd (later_rows rs'),
              col_Ferr = map sqrt (map snd (later_rows rs'))\<rparr>"
    by (auto elim: preprocess_Inr)
  with src(3) have "rs' = rs"
    by (simp add: squeeze_Array2)
  with rs'(2) src(1,2) have "column_ok (files w) (conc, ds)"
    by (simp add: column_ok_def)
  with data' w' src(4) show ?thesis
    by (intro that) simp_all
qed

lemma list_all_dict_set:
  "list_all P data \<Longrightarrow> P (k, v) \<Longrightarrow> list_all P (dict_set data k v)"
  by (induction data k v rule: dict_set.induct) auto

lemma keys_dict_set: "k \<notin> set (map fst data) \<Longrightarrow> map fst (dict_set data k v) = map fst data @ [k]"
  by (induction data k v rule: dict_set.induct) auto

lemma for_loop_load_dataset:
  assumes "for_loop vs load_dataset data w = (Inr data', w')"
    and "list_all (column_ok (files w)) data" and "distinct (map fst data @ vs)"
  shows "files w' = files w \<and> list_all (column_ok (files w)) data'
       \<and> map fst data' = map fst data @ vs"
  using assms
proof (induction vs arbitrary: data w)
  case Nil
  then show ?case by (simp add: io_lift_def)
next
  case (Cons v vs)
  obtain r1 w1 where step: "load_dataset v data w = (r1, w1)"
    by (cases "load_dataset v data w")
  with Cons.prems(1) obtain data1 where r1: "r1 = Inr data1"
    and rest: "for_loop vs load_dataset data1 w1 = (Inr data', w')"
    by (cases r1) (simp_all add: io_bnd_def)
  from step r1 obtain ds where ds: "data1 = dict_set data v ds" "column_ok (files w) (v, ds)"
    "files w1 = files w"
    by (auto elim: load_dataset_Inr)
  from Cons.prems(3) have keys: "map fst data1 = map fst data @ [v]"
    unfolding ds(1) by (intro keys_dict_set) simp
  have "list_all (column_ok (files w1)) data1"
    using Cons.prems(2) ds by (simp add: list_all_dict_set)
  moreover have "distinct (map fst data1 @ vs)"
    using Cons.prems(3) keys by simp
  ultimately have "files w' = files w1 \<and> list_all (column_ok (files w1)) data'
       \<and> map fst data' = map fst data1 @ vs"
    by (intro Cons.IH [OF rest])
  with ds(3) keys show ?case by simp
qed

text \<open>
  Claim C9. In the table assembled for pickling, for every concentration column the
  stored errors \<^verbatim>\<open>Ferr\<close> are elementwise the square roots of the stored intensities
  \<^verbatim>\<open>F\<close>, and \<^verbatim>\<open>F\<close> holds the intensities of the retained rows of the text file of that
  concentration, unchanged; the table written to \<^verbatim>\<open>data/fluorescence.p\<close> is that table,
  with one column for each concentration.
\<close>

theorem pickled_dataframe_errors:
  assumes "cell_pickle w = (Inr df, w')"
  shows "files w' pickle_path = Some (PickleFile df)
       \<and> map fst df = concs
       \<and> (\<forall>(c, ds) \<in> set df.
            col_Ferr ds = map sqrt (col_F ds) \<and>
            (\<exists>ls rs. files w (quencher_path c) = Some (TextFile ls) \<and>
               parse_rows (drop 9 ls) = Inr rs \<and> col_F ds = map snd (later_rows rs)))"
proof -
  obtain r1 w1 where loop: "for_loop concs load_dataset [] w = (r1, w1)"
    by (cases "for_loop concs load_dataset [] w")
  with assms have r1: "r1 = Inr df"
    by (cases r1) (simp_all add: cell_pickle_def io_bnd_def io_lift_def to_pickle_def)
  with assms loop have w': "files w' pickle_path = Some (PickleFile df)"
    by (auto simp: cell_pickle_def io_bnd_def io_lift_def to_pickle_def record_op_def)
  have "distinct (map fst ([] :: dataframe) @ concs)"
    by (simp add: concs_def)
  with loop r1 have "files w1 = files w \<and> list_all (column_ok (files w)) df
       \<and> map fst df = map fst ([] :: dataframe) @ concs"
    by (intro for_loop_load_dataset) simp_all
  with w' show ?thesis
    by (auto simp: list_all_iff column_ok_def)
qed

lemma is_quencher_txt_path: "is_quencher_txt (quencher_path c)"
  by (simp add: is_quencher_txt_def quencher_path_def)

lemma not_quencher_pickle: "\<not> is_quencher_txt pickle_path"
  by (simp add: is_quencher_txt_def pickle_path_def)

lemma example_parse: "parse_rows (drop 9 example_lines) = Inr [(0, 1), (1, 5), (2, 3), (3, 2)]"
  by (simp add: example_lines_def)

lemma example_load:
  "files w = example_fs \<Longrightarrow>
   loadtxt (quencher_path c) 9 w =
     (Inr (Array2 [(0, 1), (1, 5), (2, 3), (3, 2)]), record_op (ReadFile (quencher_path c)) w)"
  by (simp add: loadtxt_def example_fs_def is_quencher_txt_path example_parse squeeze_def)

lemma example_preprocess:
  "preprocess (Array2 [(0, 1), (1, 5), (2, 3), (3, 2)]) = Inr example_dataset"
  by (simp add: preprocess_def discard_before_max_def rows2d_def np_max_def np_binop_def
      bool_index_def dataset_of_def sub_scalar_def np_sqrt_def example_dataset_def)

lemma example_load_dataset:
  "files w = example_fs \<Longrightarrow>
   load_dataset c data w =
     (Inr (dict_set data c example_dataset), record_op (ReadFile (quencher_path c)) w)"
  by (simp add: load_dataset_def io_bnd_def io_lift_def example_load example_preprocess)

lemma example_cell_pickle:
  "fst (cell_pickle (start example_fs)) =
     Inr [(0, example_dataset), (0.2, example_dataset), (0.5, example_dataset),
          (1.0, example_dataset), (1.5, example_dataset)]"
  by (simp add: cell_pickle_def concs_def io_bnd_def io_lift_def example_load_dataset
      record_op_def start_def to_pickle_def)

text \<open>The cell run on the example file system.\<close>

theorem pickled_dataframe_errors_witness:
  "fst (cell_pickle (start example_fs)) =
     Inr [(0, example_dataset), (0.2, example_dataset), (0.5, example_dataset),
          (1.0, example_dataset), (1.5, example_dataset)]
   \<and> files (snd (cell_pickle (start example_fs))) pickle_path =
       Some (PickleFile [(0, example_dataset), (0.2, example_dataset), (0.5, example_dataset),
          (1.0, example_dataset), (1.5, example_dataset)])
   \<and> col_F example_dataset = [3, 2] \<and> col_Ferr example_dataset = [sqrt 3, sqrt 2]"
  using pickled_dataframe_errors [of "start example_fs"
      "[(0, example_dataset), (0.2, example_dataset), (0.5, example_dataset),
          (1.0, example_dataset), (1.5, example_dataset)]" "snd (cell_pickle (start example_fs))"]
    example_cell_pickle
  by (simp add: prod_eq_iff example_dataset_def)

subsection \<open>File operations\<close>

lemma reads_withinI:
  assumes "\<And>w. files (snd (m w)) = files w"
    and "\<And>w. \<exists>ops. oplog (snd (m w)) = oplog w @ ops \<and> list_all A ops"
  shows "reads_within A m"
  using assms by (simp add: reads_within_def)

lemma reads_within_lift: "reads_within A (io_lift r)"
  by (simp add: reads_within_def io_lift_def)

lemma reads_within_bnd:
  assumes m: "reads_within A m" and f: "\<And>v. reads_within A (f v)"
  shows "reads_within A (io_bnd m f)"
proof (rule reads_withinI)
  fix w
  obtain r w1 where mw: "m w = (r, w1)"
    by (cases "m w")
  from m mw obtain ops1 where w1: "files w1 = files w" "oplog w1 = oplog w @ ops1" "list_all A ops1"
    unfolding reads_within_def by (metis snd_conv)
  show "files (snd (io_bnd m f w)) = files w"
  proof (cases r)
    case (Inl e)
    with mw w1 show ?thesis by (simp add: io_bnd_def)
  next
    case (Inr v)
    with f [of v] mw w1 show ?thesis
      by (simp add: io_bnd_def reads_within_def)
  qed
  show "\<exists>ops. oplog (snd (io_bnd m f w)) = oplog w @ ops \<and> list_all A ops"
  proof (cases r)
    case (Inl e)
    with mw w1 show ?thesis by (simp add: io_bnd_def)
  next
    case (Inr v)
    from f [of v] obtain ops2 where "oplog (snd (f v w1)) = oplog w1 @ ops2" "list_all A ops2"
      unfolding reads_within_def by blast
    with w1 have "oplog (snd (f v w1)) = oplog w @ (ops1 @ ops2) \<and> list_all A (ops1 @ ops2)"
      by simp
    with Inr mw show ?thesis
      by (auto simp add: io_bnd_def simp del: append_assoc)
  qed
qed

lemma reads_within_for_loop:
  assumes "\<And>v st. reads_within A (body v st)"
  shows "reads_within A (for_loop vs body st)"
proof (induction vs arbitrary: st)
  case Nil
  show ?case by (simp add: reads_within_lift)
next
  case (Cons v vs)
  show ?case
    by (simp add: reads_within_bnd assms Cons.IH)
qed

lemma reads_within_run_cells:
  assumes "\<And>c. c \<in> set cs \<Longrightarrow> reads_within A c"
  shows "reads_within A (run_cells cs)"
  using assms
proof (induction cs)
  case Nil
  show ?case by (simp add: reads_within_lift)
next
  case (Cons c cs)
  then show ?case
    by (simp add: reads_within_bnd)
qed

lemma reads_within_discard: "reads_within A m \<Longrightarrow> reads_within A (discard m)"
  by (simp add: discard_def reads_within_bnd reads_within_lift)

lemma reads_within_record:
  assumes "A op" and "\<And>w. snd (m w) = record_op op w"
  shows "reads_within A m"
proof (rule reads_withinI)
  fix w
  show "files (snd (m w)) = files w"
    by (simp add: assms(2) record_op_def)
  show "\<exists>ops. oplog (snd (m w)) = oplog w @ ops \<and> list_all A ops"
    using assms(1) by (intro exI [of _ "[op]"]) (simp add: assms(2) record_op_def)
qed

lemma reads_within_loadtxt: "A (ReadFile p) \<Longrightarrow> reads_within A (loadtxt p n)"
  by (rule reads_within_record [where op = "ReadFile p"]) (simp_all add: loadtxt_def)

lemma reads_within_read_pickle: "A (ReadFile p) \<Longrightarrow> reads_within A (read_pickle p)"
  by (rule reads_within_record [where op = "ReadFile p"]) (simp_all add: read_pickle_def)

lemma reads_within_sh_head: "A (ReadFile p) \<Longrightarrow> reads_within A (sh_head p)"
  by (rule reads_within_record [where op = "ReadFile p"]) (simp_all add: sh_head_def)

lemma reads_within_sh_ls: "A (ListDir p) \<Longrightarrow> reads_within A (sh_ls p)"
  by (rule reads_within_record [where op = "ListDir p"]) (simp_all add: sh_ls_def)

lemma reads_input_path: "reads_input (ReadFile (quencher_path c))"
  by (simp add: reads_input_def is_quencher_txt_path)

lemma reads_within_load_dataset:
  assumes "\<And>c. A (ReadFile (quencher_path c))"
  shows "reads_within A (load_dataset conc data)"
  unfolding load_dataset_def
  by (intro reads_within_bnd reads_within_lift reads_within_loadtxt assms)

lemma reads_within_cell_plot_raw:
  assumes "\<And>c. A (ReadFile (quencher_path c))"
  shows "reads_within A cell_plot_raw"
  unfolding cell_plot_raw_def
  by (intro reads_within_for_loop reads_within_bnd reads_within_lift reads_within_loadtxt assms)

lemma reads_within_cell_plot_shifted:
  assumes "\<And>c. A (ReadFile (quencher_path c))"
  shows "reads_within A cell_plot_shifted"
  unfolding cell_plot_shifted_def
  by (intro reads_within_for_loop reads_within_bnd reads_within_lift reads_within_loadtxt assms)

lemma reads_within_cell_single_args: "reads_within reads_pickle cell_single_args"
  unfolding cell_single_args_def
  by (intro reads_within_bnd reads_within_lift reads_within_read_pickle)
    (simp add: reads_pickle_def)

lemma reads_within_append_dataset: "reads_within A (append_dataset data conc st)"
  unfolding append_dataset_def
  by (cases st) (simp add: reads_within_bnd reads_within_lift)

lemma reads_within_cell_global_args: "reads_within reads_pickle cell_global_args"
  unfolding cell_global_args_def
  by (intro reads_within_bnd reads_within_for_loop reads_within_append_dataset
      reads_within_read_pickle)
    (simp_all add: reads_within_lift reads_pickle_def split: prod.splits)

lemma run_cells_append:
  "run_cells (xs @ ys) w =
     (case run_cells xs w of (Inl e, w') \<Rightarrow> (Inl e, w') | (Inr u, w') \<Rightarrow> run_cells ys w')"
proof (induction xs arbitrary: w)
  case Nil
  show ?case by (simp add: io_lift_def)
next
  case (Cons c cs)
  show ?case
    by (simp add: io_bnd_def Cons.IH split: prod.splits sum.splits)
qed

lemma reads_within_step:
  assumes "reads_within A m" and "m w = (r, w')"
  obtains ops where "files w' = files w" and "oplog w' = oplog w @ ops" and "list_all A ops"
  using assms unfolding reads_within_def by (metis snd_conv)

lemma reads_or_lists_not_write: "reads_or_lists op \<Longrightarrow> \<not> is_write op"
  by (auto simp: reads_or_lists_def reads_input_def is_write_def split: fs_op.splits)

lemma reads_pickle_not_write: "reads_pickle op \<Longrightarrow> \<not> is_write op"
  by (simp add: reads_pickle_def is_write_def)

lemma filter_is_write_reads_or_lists: "list_all reads_or_lists ops \<Longrightarrow> filter is_write ops = []"
  by (induction ops) (simp_all add: reads_or_lists_not_write)

lemma filter_is_write_reads_pickle: "list_all reads_pickle ops \<Longrightarrow> filter is_write ops = []"
  by (induction ops) (simp_all add: reads_pickle_not_write)

lemma notebook_op_reads_or_lists: "list_all reads_or_lists ops \<Longrightarrow> list_all notebook_op ops"
  by (induction ops) (auto simp: reads_or_lists_def notebook_op_def input_or_pickle_def)

lemma notebook_op_reads_pickle: "list_all reads_pickle ops \<Longrightarrow> list_all notebook_op ops"
  by (induction ops) (auto simp: reads_pickle_def notebook_op_def input_or_pickle_def)

lemma no_write_yet_summary:
  assumes "no_write_yet fs w"
  shows "list_all notebook_op (oplog w)" and "filter is_write (oplog w) = []"
    and "files w p = fs p"
  using assms
  by (simp_all add: no_write_yet_def notebook_op_reads_or_lists filter_is_write_reads_or_lists)

lemma written_once_summary:
  assumes "written_once fs w"
  shows "list_all notebook_op (oplog w)" and "filter is_write (oplog w) = [WriteFile pickle_path]"
    and "p \<noteq> pickle_path \<Longrightarrow> files w p = fs p"
proof -
  from assms obtain df before after where w: "files w = fs(pickle_path \<mapsto> PickleFile df)"
    "oplog w = before @ [WriteFile pickle_path] @ after"
    "list_all reads_or_lists before" "list_all reads_pickle after"
    unfolding written_once_def by blast
  show "list_all notebook_op (oplog w)"
    using w(2-4)
    by (simp add: notebook_op_reads_or_lists notebook_op_reads_pickle notebook_op_def
        input_or_pickle_def)
  show "filter is_write (oplog w) = [WriteFile pickle_path]"
    using w(2-4)
    by (simp add: filter_is_write_reads_or_lists filter_is_write_reads_pickle is_write_def)
  show "files w p = fs p" if "p \<noteq> pickle_path"
    using w(1) that by simp
qed

lemma reads_or_lists_path: "reads_or_lists (ReadFile (quencher_path c))"
  by (simp add: reads_or_lists_def reads_input_path)

lemma reads_within_before_pickle:
  assumes "c \<in> set [cell_head, cell_ls, cell_plot_raw, cell_plot_shifted]"
  shows "reads_within reads_or_lists c"
proof -
  have "reads_within reads_or_lists cell_head"
    unfolding cell_head_def
    by (rule reads_within_sh_head) (simp add: reads_or_lists_def reads_input_def is_quencher_txt_def)
  moreover have "reads_within reads_or_lists cell_ls"
    unfolding cell_ls_def
    by (rule reads_within_sh_ls) (simp add: reads_or_lists_def)
  moreover have "reads_within reads_or_lists cell_plot_raw"
    by (rule reads_within_cell_plot_raw) (rule reads_or_lists_path)
  moreover have "reads_within reads_or_lists cell_plot_shifted"
    by (rule reads_within_cell_plot_shifted) (rule reads_or_lists_path)
  ultimately show ?thesis
    using assms by auto
qed

lemma reads_within_after_pickle:
  assumes "c \<in> set [discard cell_single_args, discard cell_global_args]"
  shows "reads_within reads_pickle c"
  using assms
  by (auto intro: reads_within_discard reads_within_cell_single_args reads_within_cell_global_args)

lemma no_write_yet_step:
  assumes "reads_within reads_or_lists m" and "m w = (r, w')" and "no_write_yet fs w"
  shows "no_write_yet fs w'"
proof -
  from assms(1,2) obtain ops where "files w' = files w" "oplog w' = oplog w @ ops"
    "list_all reads_or_lists ops"
    by (rule reads_within_step)
  with assms(3) show ?thesis
    by (simp add: no_write_yet_def)
qed

lemma written_onceI:
  assumes "files w = fs(pickle_path \<mapsto> PickleFile df)"
    and "oplog w = before @ [WriteFile pickle_path] @ after"
    and "list_all reads_or_lists before" and "list_all reads_pickle after"
  shows "written_once fs w"
  unfolding written_once_def using assms by blast

lemma written_once_step:
  assumes "reads_within reads_pickle m" and "m w = (r, w')" and "written_once fs w"
  shows "written_once fs w'"
proof -
  from assms(1,2) obtain ops where ops: "files w' = files w" "oplog w' = oplog w @ ops"
    "list_all reads_pickle ops"
    by (rule reads_within_step)
  from assms(3) obtain df before after where w: "files w = fs(pickle_path \<mapsto> PickleFile df)"
    "oplog w = before @ [WriteFile pickle_path] @ after"
    "list_all reads_or_lists before" "list_all reads_pickle after"
    unfolding written_once_def by blast
  have "oplog w' = before @ [WriteFile pickle_path] @ (after @ ops)"
    using ops(2) w(2) by simp
  moreover have "list_all reads_pickle (after @ ops)"
    using ops(3) w(4) by simp
  moreover have "files w' = fs(pickle_path \<mapsto> PickleFile df)"
    using ops(1) w(1) by simp
  ultimately show ?thesis
    using w(3) by (intro written_onceI [where before = before and after = "after @ ops"])
qed

lemma cell_pickle_step:
  assumes "discard cell_pickle w = (r, w')" and "no_write_yet fs w"
  shows "(case r of Inl e \<Rightarrow> no_write_yet fs w' | Inr u \<Rightarrow> written_once fs w')"
proof -
  obtain r1 w1 where loop: "for_loop concs load_dataset [] w = (r1, w1)"
    by (cases "for_loop concs load_dataset [] w")
  have "reads_within reads_or_lists (for_loop concs load_dataset [])"
    by (intro reads_within_for_loop reads_within_load_dataset reads_or_lists_path)
  from no_write_yet_step [OF this loop assms(2)] have w1: "no_write_yet fs w1" .
  show ?thesis
  proof (cases r1)
    case (Inl e)
    with assms(1) loop have "r = Inl e" "w' = w1"
      by (simp_all add: discard_def cell_pickle_def io_bnd_def)
    with w1 show ?thesis by simp
  next
    case (Inr data)
    with assms(1) loop have r: "r = Inr ()"
      and w': "w' = record_op (WriteFile pickle_path)
                      (w1\<lparr>files := (files w1)(pickle_path \<mapsto> PickleFile data)\<rparr>)"
      by (simp_all add: discard_def cell_pickle_def io_bnd_def io_lift_def to_pickle_def)
    from w1 have "files w' = fs(pickle_path \<mapsto> PickleFile data)"
      and "oplog w' = oplog w1 @ [WriteFile pickle_path] @ []"
      and "list_all reads_or_lists (oplog w1)"
      by (simp_all add: w' record_op_def no_write_yet_def)
    then have "written_once fs w'"
      by (intro written_onceI [where before = "oplog w1" and after = "[]"]) simp_all
    with r show ?thesis by simp
  qed
qed

lemma run_cells_no_write_yet:
  assumes "\<And>c. c \<in> set cs \<Longrightarrow> reads_within reads_or_lists c"
    and "run_cells cs w = (r, w')" and "no_write_yet fs w"
  shows "no_write_yet fs w'"
  using reads_within_run_cells [of cs reads_or_lists] assms no_write_yet_step by blast

lemma run_cells_written_once:
  assumes "\<And>c. c \<in> set cs \<Longrightarrow> reads_within reads_pickle c"
    and "run_cells cs w = (r, w')" and "written_once fs w"
  shows "written_once fs w'"
  using reads_within_run_cells [of cs reads_pickle] assms written_once_step by blast

lemma no_write_yet_start: "no_write_yet fs (start fs)"
  by (simp add: no_write_yet_def start_def)

lemma take_notebook_cells:
  "take k notebook_cells =
     (if k \<le> 4 then take k [cell_head, cell_ls, cell_plot_raw, cell_plot_shifted]
      else [cell_head, cell_ls, cell_plot_raw, cell_plot_shifted] @
           [discard cell_pickle] @
           take (k - 5) [discard cell_single_args, discard cell_global_args])"
  by (simp add: notebook_cells_def take_Cons')

lemma frame_no_write_yet:
  assumes "no_write_yet fs w'" and "\<not> (5 \<le> k \<and> r = Inr ())"
  shows "list_all notebook_op (oplog w')
       \<and> (filter is_write (oplog w') = [] \<or> filter is_write (oplog w') = [WriteFile pickle_path])
       \<and> (5 \<le> k \<and> r = Inr () \<longrightarrow> filter is_write (oplog w') = [WriteFile pickle_path])
       \<and> (\<forall>p. p \<noteq> pickle_path \<longrightarrow> files w' p = fs p)
       \<and> (\<forall>p. is_quencher_txt p \<longrightarrow> files w' p = fs p)"
  using no_write_yet_summary [OF assms(1)] assms(2) by simp

lemma frame_written_once:
  assumes "written_once fs w'"
  shows "list_all notebook_op (oplog w')
       \<and> (filter is_write (oplog w') = [] \<or> filter is_write (oplog w') = [WriteFile pickle_path])
       \<and> (5 \<le> k \<and> r = Inr () \<longrightarrow> filter is_write (oplog w') = [WriteFile pickle_path])
       \<and> (\<forall>p. p \<noteq> pickle_path \<longrightarrow> files w' p = fs p)
       \<and> (\<forall>p. is_quencher_txt p \<longrightarrow> files w' p = fs p)"
proof -
  have "files w' p = fs p" if "is_quencher_txt p" for p
    using that written_once_summary(3) [OF assms, of p] not_quencher_pickle by auto
  then show ?thesis
    using written_once_summary [OF assms] by simp
qed

text \<open>
  Claim C6, as the code has it. In every run of the notebook (the first \<open>k\<close> cells, to
  the first exception), every file operation is a read of a file
  \<^verbatim>\<open>data/fluorescence/quencher_*.txt\<close>, the listing of the directory \<^verbatim>\<open>data/fluorescence\<close>,
  the write of \<^verbatim>\<open>data/fluorescence.p\<close> or a read of it; there is at most one write, and
  exactly one, of the pickle, in a run that gets past the pickling cell; and no file
  other than \<^verbatim>\<open>data/fluorescence.p\<close> is changed, so none of the text files is.
\<close>

theorem notebook_file_operations:
  assumes "run_cells (take k notebook_cells) (start fs) = (r, w')"
  shows "list_all notebook_op (oplog w')
       \<and> (filter is_write (oplog w') = [] \<or> filter is_write (oplog w') = [WriteFile pickle_path])
       \<and> (5 \<le> k \<and> r = Inr () \<longrightarrow> filter is_write (oplog w') = [WriteFile pickle_path])
       \<and> (\<forall>p. p \<noteq> pickle_path \<longrightarrow> files w' p = fs p)
       \<and> (\<forall>p. is_quencher_txt p \<longrightarrow> files w' p = fs p)"
proof (cases "k \<le> 4")
  case True
  with assms have run: "run_cells (take k [cell_head, cell_ls, cell_plot_raw, cell_plot_shifted])
      (start fs) = (r, w')"
    by (simp add: take_notebook_cells)
  have "no_write_yet fs w'"
    by (rule run_cells_no_write_yet [OF _ run no_write_yet_start])
      (rule reads_within_before_pickle, erule in_set_takeD)
  with True show ?thesis
    by (intro frame_no_write_yet) simp_all
next
  case False
  define pre where "pre = [cell_head, cell_ls, cell_plot_raw, cell_plot_shifted]"
  define post where "post = take (k - 5) [discard cell_single_args, discard cell_global_args]"
  obtain r0 w0 where pre: "run_cells pre (start fs) = (r0, w0)"
    by (cases "run_cells pre (start fs)")
  have w0: "no_write_yet fs w0"
    by (rule run_cells_no_write_yet [OF _ pre no_write_yet_start])
      (rule reads_within_before_pickle, simp add: pre_def)
  obtain r1 w1 where mid: "discard cell_pickle w0 = (r1, w1)"
    by (cases "discard cell_pickle w0")
  note w1 = cell_pickle_step [OF mid w0]
  from False assms have run: "run_cells (pre @ [discard cell_pickle] @ post) (start fs) = (r, w')"
    by (simp add: take_notebook_cells pre_def post_def)
  show ?thesis
  proof (cases r0)
    case (Inl e)
    with run pre have "r = Inl e" "w' = w0"
      by (simp_all add: run_cells_append)
    with w0 show ?thesis
      by (intro frame_no_write_yet) simp_all
  next
    case u: (Inr u)
    show ?thesis
    proof (cases r1)
      case (Inl e)
      with run pre mid u have "r = Inl e" "w' = w1"
        by (simp_all add: run_cells_append io_bnd_def)
      with w1 Inl show ?thesis
        by (intro frame_no_write_yet) simp_all
    next
      case (Inr v)
      with run pre mid u have post: "run_cells post w1 = (r, w')"
        by (simp add: run_cells_append io_bnd_def)
      from w1 Inr have "written_once fs w1"
        by simp
      have "reads_within reads_pickle c" if "c \<in> set post" for c
        using that unfolding post_def
        by (intro reads_within_after_pickle) (rule in_set_takeD)
      then have "written_once fs w'"
        using post \<open>written_once fs w1\<close> by (rule run_cells_written_once)
      then show ?thesis
        by (rule frame_written_once)
    qed
  qed
qed

lemma example_run_oplog:
  "run_cells notebook_cells (start example_fs) =
    (Inr (), \<lparr>files = example_fs(pickle_path \<mapsto> PickleFile
         [(0, example_dataset), (0.2, example_dataset), (0.5, example_dataset),
          (1.0, example_dataset), (1.5, example_dataset)]),
      oplog =
     [ReadFile ''data/fluorescence/quencher_0.0.txt'',
      ListDir ''data/fluorescence'',
      ReadFile ''data/fluorescence/quencher_0.0.txt'',
      ReadFile ''data/fluorescence/quencher_0.2.txt'',
      ReadFile ''data/fluorescence/quencher_0.5.txt'',
      ReadFile ''data/fluorescence/quencher_1.0.txt'',
      ReadFile ''data/fluorescence/quencher_1.5.txt'',
      ReadFile ''data/fluorescence/quencher_0.0.txt'',
      ReadFile ''data/fluorescence/quencher_0.2.txt'',
      ReadFile ''data/fluorescence/quencher_0.5.txt'',
      ReadFile ''data/fluorescence/quencher_1.0.txt'',
      ReadFile ''data/fluorescence/quencher_1.5.txt'',
      ReadFile ''data/fluorescence/quencher_0.0.txt'',
      ReadFile ''data/fluorescence/quencher_0.2.txt'',
      ReadFile ''data/fluorescence/quencher_0.5.txt'',
      ReadFile ''data/fluorescence/quencher_1.0.txt'',
      ReadFile ''data/fluorescence/quencher_1.5.txt'',
      WriteFile ''data/fluorescence.p'', ReadFile ''data/fluorescence.p'',
      ReadFile ''data/fluorescence.p'']\<rparr>)"
  apply (simp add: notebook_cells_def cell_head_def cell_ls_def cell_plot_raw_def
    cell_plot_shifted_def cell_pickle_def cell_single_args_def cell_global_args_def discard_def
    sh_head_def sh_ls_def unpack_columns_def
    concs_def io_bnd_def io_lift_def example_load_dataset example_load example_preprocess
    record_op_def start_def to_pickle_def read_pickle_def dict_get_def append_dataset_def)
  apply (simp add: quencher_path_def format_1_1f_def round_half_even_def digit_char_def pickle_path_def)
  done

text \<open>The whole notebook run on the example file system.\<close>

theorem notebook_file_operations_witness:
  "fst (run_cells (take 7 notebook_cells) (start example_fs)) = Inr ()
   \<and> list_all notebook_op (oplog (snd (run_cells (take 7 notebook_cells) (start example_fs))))
   \<and> filter is_write (oplog (snd (run_cells (take 7 notebook_cells) (start example_fs)))) =
       [WriteFile pickle_path]
   \<and> files (snd (run_cells (take 7 notebook_cells) (start example_fs)))
        ''data/fluorescence/quencher_0.0.txt'' = Some (TextFile example_lines)"
proof -
  have full: "take 7 notebook_cells = notebook_cells"
    by (simp add: notebook_cells_def)
  have ok: "fst (run_cells (take 7 notebook_cells) (start example_fs)) = Inr ()"
    by (simp add: full example_run_oplog)
  have q: "is_quencher_txt ''data/fluorescence/quencher_0.0.txt''"
    by (simp add: is_quencher_txt_def)
  have "run_cells (take 7 notebook_cells) (start example_fs) =
      (fst (run_cells (take 7 notebook_cells) (start example_fs)),
       snd (run_cells (take 7 notebook_cells) (start example_fs)))"
    by simp
  from notebook_file_operations [OF this] ok q show ?thesis
    by (simp add: example_fs_def)
qed

text \<open>
  The claim without the listing fails: the run on the example file system ends normally,
  and its log holds the listing of \<^verbatim>\<open>data/fluorescence\<close> by the \<^verbatim>\<open>!ls\<close> cell, which is
  neither a read of a text file nor an operation on the pickle.
\<close>

theorem notebook_lists_directory_counterexample:
  "fst (run_cells notebook_cells (start example_fs)) = Inr ()
   \<and> ListDir ''data/fluorescence'' \<in> set (oplog (snd (run_cells notebook_cells (start example_fs))))
   \<and> \<not> input_or_pickle (ListDir ''data/fluorescence'')
   \<and> \<not> list_all input_or_pickle (oplog (snd (run_cells notebook_cells (start example_fs))))"
  by (simp add: example_run_oplog input_or_pickle_def reads_input_def)

subsection \<open>Exceptions\<close>

lemma residuals_loop_first_error:
  assumes "j < length ms"
    and "\<And>i. i < j \<Longrightarrow> \<exists>r. residuals_of f p args (k + i) (ms ! i) = Inr r"
    and "residuals_of f p args (k + j) (ms ! j) = Inl e"
  shows "residuals_loop f p args (zip [k..<k + length ms] ms) acc = Inl e"
  using assms
proof (induction ms arbitrary: k j acc)
  case Nil
  then show ?case by simp
next
  case (Cons m ms)
  have upt: "[k..<k + length (m # ms)] = k # [Suc k..<Suc k + length ms]"
    by (simp add: upt_conv_Cons del: upt_Suc)
  show ?case
  proof (cases j)
    case 0
    with Cons.prems(3) upt show ?thesis
      by (simp del: upt_Suc)
  next
    case (Suc j')
    from Cons.prems(2) [of 0] Suc obtain r where r: "residuals_of f p args k m = Inr r"
      by auto
    have "residuals_loop f p args (zip [Suc k..<Suc k + length ms] ms) (acc @ r) = Inl e"
    proof (rule Cons.IH [where j = j'])
      show "j' < length ms"
        using Cons.prems(1) Suc by simp
      show "\<exists>r. residuals_of f p args (Suc k + i) (ms ! i) = Inr r" if "i < j'" for i
        using Cons.prems(2) [of "Suc i"] that Suc by simp
      show "residuals_of f p args (Suc k + j') (ms ! j') = Inl e"
        using Cons.prems(3) Suc by simp
    qed
    with r upt show ?thesis
      by (simp del: upt_Suc)
  qed
qed

lemma leastsq_function_with_first_error:
  assumes "j < length (drop 3 p)"
    and "\<forall>i<j. \<exists>r. residuals_of f p args i (drop 3 p ! i) = Inr r"
    and "residuals_of f p args j (drop 3 p ! j) = Inl e"
  shows "leastsq_function_with f p args = Inl e"
  using residuals_loop_first_error [of j "drop 3 p" f p args 0 e "[]"] assms
  by (simp add: leastsq_function_with_def enumerate_def)

text \<open>
  A function fails with an exception exactly when one of its calls does, the calls
  before it having returned.
\<close>

lemma bnd_Inl_iff: "bnd m f = Inl e \<longleftrightarrow> m = Inl e \<or> (\<exists>v. m = Inr v \<and> f v = Inl e)"
  by (cases m) simp_all

lemma io_bnd_Inl_iff:
  "fst (io_bnd m f w) = Inl e \<longleftrightarrow>
     fst (m w) = Inl e \<or> (\<exists>v. fst (m w) = Inr v \<and> fst (f v (snd (m w))) = Inl e)"
  by (cases "m w"; cases "fst (m w)") (simp_all add: io_bnd_def)

lemma io_bnd_Inr_iff:
  "fst (io_bnd m f w) = Inr r \<longleftrightarrow>
     (\<exists>v. fst (m w) = Inr v \<and> fst (f v (snd (m w))) = Inr r)"
  by (cases "m w"; cases "fst (m w)") (simp_all add: io_bnd_def)

lemma fst_io_lift [simp]: "fst (io_lift r w) = r"
  by (simp add: io_lift_def)

lemma snd_io_lift [simp]: "snd (io_lift r w) = w"
  by (simp add: io_lift_def)

lemma func_single_Inl_iff:
  "func_single x param = Inl e \<longleftrightarrow>
     getitem param 0 = Inl e \<or> (\<exists>a. getitem param 0 = Inr a \<and> getitem param 1 = Inl e)"
  by (auto simp: func_single_def bnd_Inl_iff)

lemma leastsq_function_single_Inl_iff:
  "leastsq_function_single param args = Inl e \<longleftrightarrow>
     getitem args 1 = Inl e \<or>
     (\<exists>y. getitem args 1 = Inr y \<and>
       (getitem args 0 = Inl e \<or>
       (\<exists>x. getitem args 0 = Inr x \<and>
         (func_single x param = Inl e \<or>
         (\<exists>fx. func_single x param = Inr fx \<and>
           (np_binop (-) y fx = Inl e \<or>
           (\<exists>d. np_binop (-) y fx = Inr d \<and>
             (getitem args 2 = Inl e \<or>
             (\<exists>yerr. getitem args 2 = Inr yerr \<and> np_binop (/) d yerr = Inl e)))))))))"
  by (simp only: leastsq_function_single_def bnd_Inl_iff)

lemma func_global_Inl_iff:
  "func_global x param = Inl e \<longleftrightarrow>
     getitem param 0 = Inl e \<or>
     (\<exists>a. getitem param 0 = Inr a \<and>
       (getitem param 1 = Inl e \<or>
       (\<exists>b. getitem param 1 = Inr b \<and>
         (getitem param 3 = Inl e \<or>
         (\<exists>m. getitem param 3 = Inr m \<and>
           (getitem param 2 = Inl e \<or>
           (\<exists>c. getitem param 2 = Inr c \<and>
              np_binop (+) (div_scalar (np_neg x) b)
                (scalar_mul m (np_expm1 (scalar_mul (- c) x))) = Inl e)))))))"
  by (auto simp: func_global_def bnd_Inl_iff)

lemma func_linearized_Inl_iff:
  "func_linearized x param = Inl e \<longleftrightarrow>
     getitem param 0 = Inl e \<or>
     (\<exists>a. getitem param 0 = Inr a \<and>
       (getitem param 1 = Inl e \<or>
       (\<exists>b. getitem param 1 = Inr b \<and>
         (getitem param 3 = Inl e \<or>
         (\<exists>m. getitem param 3 = Inr m \<and>
           (getitem param 2 = Inl e \<or>
           (\<exists>c. getitem param 2 = Inr c \<and>
              np_binop (+) (scalar_sub a (div_scalar x b))
                (scalar_mul m (np_expm1 (scalar_mul (- c) x))) = Inl e)))))))"
  by (simp only: func_linearized_def bnd_Inl_iff)

lemma residuals_of_Inl_iff:
  "residuals_of f p args i m = Inl e \<longleftrightarrow>
     getitem p 0 = Inl e \<or>
     (\<exists>pa. getitem p 0 = Inr pa \<and>
       (getitem p 1 = Inl e \<or>
       (\<exists>pb. getitem p 1 = Inr pb \<and>
         (getitem p 2 = Inl e \<or>
         (\<exists>pc. getitem p 2 = Inr pc \<and>
           (getitem args 1 = Inl e \<or>
           (\<exists>ally. getitem args 1 = Inr ally \<and>
             (getitem ally i = Inl e \<or>
             (\<exists>y. getitem ally i = Inr y \<and>
               (getitem args 0 = Inl e \<or>
               (\<exists>allx. getitem args 0 = Inr allx \<and>
                 (getitem allx i = Inl e \<or>
                 (\<exists>x. getitem allx i = Inr x \<and>
                   (f x [pa, pb, pc, m] = Inl e \<or>
                   (\<exists>fx. f x [pa, pb, pc, m] = Inr fx \<and>
                     (np_binop (-) y fx = Inl e \<or>
                     (\<exists>d. np_binop (-) y fx = Inr d \<and>
                       (getitem args 2 = Inl e \<or>
                       (\<exists>allyerr. getitem args 2 = Inr allyerr \<and>
                         (getitem allyerr i = Inl e \<or>
                         (\<exists>yerr. getitem allyerr i = Inr yerr \<and>
                            np_binop (/) d yerr = Inl e)))))))))))))))))))))"
  by (simp only: residuals_of_def bnd_Inl_iff)

lemma error_analysis_pcov_Inl_iff:
  "error_analysis_pcov svd res = Inl e \<longleftrightarrow>
     svd (res_jac res) = Inl e \<or>
     (\<exists>U s VT. svd (res_jac res) = Inr (U, s, VT) \<and>
       (getitem s 0 = Inl e \<or>
       (\<exists>sa. getitem s 0 = Inr sa \<and>
         (mat_div_vec
            (mat_T (take_rows (length (retained s (threshold_of (res_jac res) sa))) VT))
            (map (\<lambda>v. v ^ 2) (retained s (threshold_of (res_jac res) sa))) = Inl e \<or>
         (\<exists>A. mat_div_vec
            (mat_T (take_rows (length (retained s (threshold_of (res_jac res) sa))) VT))
            (map (\<lambda>v. v ^ 2) (retained s (threshold_of (res_jac res) sa))) = Inr A \<and>
            np_dot A (take_rows (length (retained s (threshold_of (res_jac res) sa))) VT)
              = Inl e)))))"
  by (auto simp: error_analysis_pcov_def bnd_Inl_iff Let_def)

lemma error_analysis_Inl_iff:
  "error_analysis svd res = Inl e \<longleftrightarrow> error_analysis_pcov svd res = Inl e"
  by (auto simp: error_analysis_def bnd_Inl_iff)

lemma error_analysis_Inl_full:
  "error_analysis svd res = Inl e \<longleftrightarrow>
     svd (res_jac res) = Inl e \<or>
     (\<exists>U s VT. svd (res_jac res) = Inr (U, s, VT) \<and>
       (getitem s 0 = Inl e \<or>
       (\<exists>sa. getitem s 0 = Inr sa \<and>
         (mat_div_vec
            (mat_T (take_rows (length (retained s (threshold_of (res_jac res) sa))) VT))
            (map (\<lambda>v. v ^ 2) (retained s (threshold_of (res_jac res) sa))) = Inl e \<or>
         (\<exists>A. mat_div_vec
            (mat_T (take_rows (length (retained s (threshold_of (res_jac res) sa))) VT))
            (map (\<lambda>v. v ^ 2) (retained s (threshold_of (res_jac res) sa))) = Inr A \<and>
            np_dot A (take_rows (length (retained s (threshold_of (res_jac res) sa))) VT)
              = Inl e)))))"
  unfolding error_analysis_Inl_iff by (rule error_analysis_pcov_Inl_iff)

lemma discard_before_max_Inl_iff:
  "discard_before_max d = Inl e \<longleftrightarrow>
     rows2d d = Inl e \<or>
     (\<exists>rs. rows2d d = Inr rs \<and>
       (np_max (map snd rs) = Inl e \<or>
       (\<exists>m. np_max (map snd rs) = Inr m \<and>
         (np_binop (\<lambda>a b. b < a) (map fst rs) (map fst (filter (\<lambda>r. snd r = m) rs)) = Inl e \<or>
         (\<exists>keep. np_binop (\<lambda>a b. b < a) (map fst rs)
                    (map fst (filter (\<lambda>r. snd r = m) rs)) = Inr keep \<and>
            bool_index rs keep = Inl e)))))"
  by (simp only: discard_before_max_def bnd_Inl_iff Let_def)

lemma dataset_of_Inl_iff: "dataset_of rs = Inl e \<longleftrightarrow> getitem rs 0 = Inl e"
  by (auto simp: dataset_of_def bnd_Inl_iff)

lemma preprocess_Inl_iff:
  "preprocess d = Inl e \<longleftrightarrow>
     discard_before_max d = Inl e \<or>
     (\<exists>rs. discard_before_max d = Inr rs \<and> dataset_of rs = Inl e)"
  by (simp only: preprocess_def bnd_Inl_iff)

lemma residuals_loop_Inl_first:
  assumes "residuals_loop f p args (zip [k..<k + length ms] ms) acc = Inl e"
  shows "\<exists>j<length ms. (\<forall>i<j. \<exists>r. residuals_of f p args (k + i) (ms ! i) = Inr r)
           \<and> residuals_of f p args (k + j) (ms ! j) = Inl e"
  using assms
proof (induction ms arbitrary: k acc)
  case Nil
  then show ?case by simp
next
  case (Cons m ms)
  have upt: "[k..<k + length (m # ms)] = k # [Suc k..<Suc k + length ms]"
    by (simp add: upt_conv_Cons del: upt_Suc)
  show ?case
  proof (cases "residuals_of f p args k m")
    case (Inl e')
    with Cons.prems upt have "e' = e"
      by (simp del: upt_Suc)
    with Inl show ?thesis
      by (intro exI [of _ 0]) simp
  next
    case (Inr r)
    with Cons.prems upt
    have "residuals_loop f p args (zip [Suc k..<Suc k + length ms] ms) (acc @ r) = Inl e"
      by (simp del: upt_Suc)
    from Cons.IH [OF this] obtain j where j: "j < length ms"
      "\<forall>i<j. \<exists>r. residuals_of f p args (Suc k + i) (ms ! i) = Inr r"
      "residuals_of f p args (Suc k + j) (ms ! j) = Inl e"
      by blast
    have "\<exists>r. residuals_of f p args (k + i) ((m # ms) ! i) = Inr r" if "i < Suc j" for i
      using that Inr j(2) by (cases i) simp_all
    with j(1,3) show ?thesis
      by (intro exI [of _ "Suc j"]) simp
  qed
qed

lemma leastsq_function_with_Inl_iff:
  "leastsq_function_with f p args = Inl e \<longleftrightarrow>
     (\<exists>j<length (drop 3 p).
        (\<forall>i<j. \<exists>r. residuals_of f p args i (drop 3 p ! i) = Inr r) \<and>
        residuals_of f p args j (drop 3 p ! j) = Inl e)"
proof
  assume "leastsq_function_with f p args = Inl e"
  then have "residuals_loop f p args (zip [0..<0 + length (drop 3 p)] (drop 3 p)) [] = Inl e"
    by (simp add: leastsq_function_with_def enumerate_def)
  from residuals_loop_Inl_first [OF this]
  show "\<exists>j<length (drop 3 p).
        (\<forall>i<j. \<exists>r. residuals_of f p args i (drop 3 p ! i) = Inr r) \<and>
        residuals_of f p args j (drop 3 p ! j) = Inl e"
    by simp
next
  assume "\<exists>j<length (drop 3 p).
        (\<forall>i<j. \<exists>r. residuals_of f p args i (drop 3 p ! i) = Inr r) \<and>
        residuals_of f p args j (drop 3 p ! j) = Inl e"
  then show "leastsq_function_with f p args = Inl e"
    using leastsq_function_with_first_error by blast
qed

lemma leastsq_function_global_Inl_iff:
  "leastsq_function_global p largs = Inl e \<longleftrightarrow>
     (\<exists>j<length (drop 3 p).
        (\<forall>i<j. \<exists>r. residuals_of func_global p largs i (drop 3 p ! i) = Inr r) \<and>
        residuals_of func_global p largs j (drop 3 p ! j) = Inl e)"
  unfolding leastsq_function_global_def by (rule leastsq_function_with_Inl_iff)

text \<open>A loop whose body only reads files fails at the first value at which its body fails.\<close>

lemma for_loop_Inl_iff:
  assumes same: "\<And>v st w. files (snd (body v st w)) = files w"
    and fails: "\<And>v st w. fst (body v st w) = Inl e \<longleftrightarrow> F (files w) v"
    and succeeds: "\<And>v st w. (\<exists>st'. fst (body v st w) = Inr st') \<longleftrightarrow> G (files w) v"
  shows "fst (for_loop vs body st w) = Inl e \<longleftrightarrow>
           (\<exists>j<length vs. (\<forall>i<j. G (files w) (vs ! i)) \<and> F (files w) (vs ! j))"
proof (induction vs arbitrary: st w)
  case Nil
  show ?case by simp
next
  case (Cons v vs)
  have later: "fst (for_loop vs body st' (snd (body v st w))) = Inl e \<longleftrightarrow>
      (\<exists>j<length vs. (\<forall>i<j. G (files w) (vs ! i)) \<and> F (files w) (vs ! j))" for st'
    by (simp add: Cons.IH same)
  have "fst (for_loop (v # vs) body st w) = Inl e \<longleftrightarrow>
      F (files w) v \<or>
      (G (files w) v \<and> (\<exists>j<length vs. (\<forall>i<j. G (files w) (vs ! i)) \<and> F (files w) (vs ! j)))"
    using succeeds [of v st w] by (auto simp: io_bnd_Inl_iff fails later)
  also have "\<dots> \<longleftrightarrow>
      (\<exists>j<length (v # vs). (\<forall>i<j. G (files w) ((v # vs) ! i)) \<and> F (files w) ((v # vs) ! j))"
    (is "?L \<longleftrightarrow> ?R")
  proof
    assume ?L
    then show ?R
    proof
      assume "F (files w) v"
      then show ?R by (intro exI [of _ 0]) simp
    next
      assume "G (files w) v \<and>
        (\<exists>j<length vs. (\<forall>i<j. G (files w) (vs ! i)) \<and> F (files w) (vs ! j))"
      then obtain j where g: "G (files w) v" and j: "j < length vs"
        "\<forall>i<j. G (files w) (vs ! i)" "F (files w) (vs ! j)"
        by blast
      have "G (files w) ((v # vs) ! i)" if "i < Suc j" for i
        using that g j(2) by (cases i) simp_all
      with j(1,3) show ?R
        by (intro exI [of _ "Suc j"]) simp
    qed
  next
    assume ?R
    then obtain j where j: "j < length (v # vs)" "\<forall>i<j. G (files w) ((v # vs) ! i)"
      "F (files w) ((v # vs) ! j)"
      by blast
    show ?L
    proof (cases j)
      case 0
      with j(3) show ?thesis by simp
    next
      case (Suc j')
      with j(2) have "G (files w) v"
        by (metis nth_Cons_0 zero_less_Suc)
      moreover from Suc j(2) have "\<forall>i<j'. G (files w) (vs ! i)"
        by (metis Suc_less_eq nth_Cons_Suc)
      ultimately show ?thesis
        using Suc j(1,3) by auto
    qed
  qed
  finally show ?case .
qed

lemma fst_loadtxt_files: "fst (loadtxt p n w) = fst (loadtxt p n (start (files w)))"
  by (simp add: loadtxt_def start_def)

lemma files_loadtxt [simp]: "files (snd (loadtxt p n w)) = files w"
  by (simp add: loadtxt_def record_op_def)

lemma files_reads_within: "reads_within A m \<Longrightarrow> files (snd (m w)) = files w"
  by (simp add: reads_within_def)

lemma reads_within_anything_loadtxt: "reads_within (\<lambda>op. True) (loadtxt p n)"
  by (rule reads_within_loadtxt) simp

lemma load_dataset_Inl_iff:
  "fst (load_dataset conc data w) = Inl e \<longleftrightarrow>
     fst (loadtxt (quencher_path conc) 9 w) = Inl e \<or>
     (\<exists>d. fst (loadtxt (quencher_path conc) 9 w) = Inr d \<and> preprocess d = Inl e)"
  by (auto simp: load_dataset_def io_bnd_Inl_iff)

lemma load_dataset_Inr_iff:
  "(\<exists>data'. fst (load_dataset conc data w) = Inr data') \<longleftrightarrow>
     (\<exists>d ds. fst (loadtxt (quencher_path conc) 9 w) = Inr d \<and> preprocess d = Inr ds)"
  by (auto simp: load_dataset_def io_bnd_Inr_iff)

lemma files_load_dataset: "files (snd (load_dataset conc data w)) = files w"
  by (rule files_reads_within [where A = "\<lambda>op. True"], rule reads_within_load_dataset) simp

lemma load_loop_Inl_iff:
  "fst (for_loop vs load_dataset data w) = Inl e \<longleftrightarrow>
     (\<exists>j<length vs.
        (\<forall>i<j. \<exists>d ds. fst (loadtxt (quencher_path (vs ! i)) 9 w) = Inr d \<and> preprocess d = Inr ds) \<and>
        (fst (loadtxt (quencher_path (vs ! j)) 9 w) = Inl e \<or>
         (\<exists>d. fst (loadtxt (quencher_path (vs ! j)) 9 w) = Inr d \<and> preprocess d = Inl e)))"
proof -
  have "fst (for_loop vs load_dataset data w) = Inl e \<longleftrightarrow>
     (\<exists>j<length vs.
        (\<forall>i<j. (\<lambda>fs v. \<exists>d ds. fst (loadtxt (quencher_path v) 9 (start fs)) = Inr d \<and>
                   preprocess d = Inr ds) (files w) (vs ! i)) \<and>
        (\<lambda>fs v. fst (loadtxt (quencher_path v) 9 (start fs)) = Inl e \<or>
           (\<exists>d. fst (loadtxt (quencher_path v) 9 (start fs)) = Inr d \<and> preprocess d = Inl e))
          (files w) (vs ! j))"
  proof (rule for_loop_Inl_iff)
    show "files (snd (load_dataset v st w)) = files w" for v st w
      by (rule files_load_dataset)
    show "fst (load_dataset v st w) = Inl e \<longleftrightarrow>
        fst (loadtxt (quencher_path v) 9 (start (files w))) = Inl e \<or>
        (\<exists>d. fst (loadtxt (quencher_path v) 9 (start (files w))) = Inr d \<and> preprocess d = Inl e)"
      for v st w
      unfolding load_dataset_Inl_iff fst_loadtxt_files [of _ _ w] ..
    show "(\<exists>st'. fst (load_dataset v st w) = Inr st') \<longleftrightarrow>
        (\<exists>d ds. fst (loadtxt (quencher_path v) 9 (start (files w))) = Inr d \<and> preprocess d = Inr ds)"
      for v st w
      unfolding load_dataset_Inr_iff fst_loadtxt_files [of _ _ w] ..
  qed
  then show ?thesis
    unfolding fst_loadtxt_files [of _ _ w] .
qed

lemma cell_pickle_Inl_iff:
  "fst (cell_pickle w) = Inl e \<longleftrightarrow>
     (\<exists>j<length concs.
        (\<forall>i<j. \<exists>d ds. fst (loadtxt (quencher_path (concs ! i)) 9 w) = Inr d \<and>
                  preprocess d = Inr ds) \<and>
        (fst (loadtxt (quencher_path (concs ! j)) 9 w) = Inl e \<or>
         (\<exists>d. fst (loadtxt (quencher_path (concs ! j)) 9 w) = Inr d \<and> preprocess d = Inl e)))"
proof -
  have "fst (cell_pickle w) = Inl e \<longleftrightarrow> fst (for_loop concs load_dataset [] w) = Inl e"
    by (auto simp: cell_pickle_def io_bnd_Inl_iff to_pickle_def)
  then show ?thesis
    by (simp only: load_loop_Inl_iff)
qed

lemma cell_plot_shifted_Inl_iff:
  "fst (cell_plot_shifted w) = Inl e \<longleftrightarrow>
     (\<exists>j<length concs.
        (\<forall>i<j. \<exists>d ds. fst (loadtxt (quencher_path (concs ! i)) 9 w) = Inr d \<and>
                  preprocess d = Inr ds) \<and>
        (fst (loadtxt (quencher_path (concs ! j)) 9 w) = Inl e \<or>
         (\<exists>d. fst (loadtxt (quencher_path (concs ! j)) 9 w) = Inr d \<and> preprocess d = Inl e)))"
proof -
  let ?body = "\<lambda>conc (st :: unit).
       io_bnd (loadtxt (quencher_path conc) 9) (\<lambda>d.
       io_bnd (io_lift (preprocess d)) (\<lambda>ds.
       io_lift (Inr ())))"
  have "fst (for_loop concs ?body () w) = Inl e \<longleftrightarrow>
     (\<exists>j<length concs.
        (\<forall>i<j. (\<lambda>fs v. \<exists>d ds. fst (loadtxt (quencher_path v) 9 (start fs)) = Inr d \<and>
                   preprocess d = Inr ds) (files w) (concs ! i)) \<and>
        (\<lambda>fs v. fst (loadtxt (quencher_path v) 9 (start fs)) = Inl e \<or>
           (\<exists>d. fst (loadtxt (quencher_path v) 9 (start fs)) = Inr d \<and> preprocess d = Inl e))
          (files w) (concs ! j))"
  proof (rule for_loop_Inl_iff)
    show "files (snd (?body v st w)) = files w" for v st w
      by (rule files_reads_within [where A = "\<lambda>op. True"])
        (intro reads_within_bnd reads_within_lift reads_within_anything_loadtxt)
    show "fst (?body v st w) = Inl e \<longleftrightarrow>
        fst (loadtxt (quencher_path v) 9 (start (files w))) = Inl e \<or>
        (\<exists>d. fst (loadtxt (quencher_path v) 9 (start (files w))) = Inr d \<and> preprocess d = Inl e)"
      for v st w
      unfolding fst_loadtxt_files [of _ _ w, symmetric] by (auto simp: io_bnd_Inl_iff)
    show "(\<exists>st'. fst (?body v st w) = Inr st') \<longleftrightarrow>
        (\<exists>d ds. fst (loadtxt (quencher_path v) 9 (start (files w))) = Inr d \<and> preprocess d = Inr ds)"
      for v st w
      unfolding fst_loadtxt_files [of _ _ w, symmetric] by (auto simp: io_bnd_Inr_iff)
  qed
  then show ?thesis
    unfolding cell_plot_shifted_def fst_loadtxt_files [of _ _ w, symmetric] .
qed

lemma cell_plot_raw_Inl_iff:
  "fst (cell_plot_raw w) = Inl e \<longleftrightarrow>
     (\<exists>j<length concs.
        (\<forall>i<j. \<exists>d tF. fst (loadtxt (quencher_path (concs ! i)) 9 w) = Inr d \<and>
                  unpack_columns d = Inr tF) \<and>
        (fst (loadtxt (quencher_path (concs ! j)) 9 w) = Inl e \<or>
         (\<exists>d. fst (loadtxt (quencher_path (concs ! j)) 9 w) = Inr d \<and>
            unpack_columns d = Inl e)))"
proof -
  let ?body = "\<lambda>conc (st :: unit).
       io_bnd (loadtxt (quencher_path conc) 9) (\<lambda>d.
       io_bnd (io_lift (unpack_columns d)) (\<lambda>tF.
       io_lift (Inr ())))"
  have "fst (for_loop concs ?body () w) = Inl e \<longleftrightarrow>
     (\<exists>j<length concs.
        (\<forall>i<j. (\<lambda>fs v. \<exists>d tF. fst (loadtxt (quencher_path v) 9 (start fs)) = Inr d \<and>
                   unpack_columns d = Inr tF) (files w) (concs ! i)) \<and>
        (\<lambda>fs v. fst (loadtxt (quencher_path v) 9 (start fs)) = Inl e \<or>
           (\<exists>d. fst (loadtxt (quencher_path v) 9 (start fs)) = Inr d \<and>
              unpack_columns d = Inl e))
          (files w) (concs ! j))"
  proof (rule for_loop_Inl_iff)
    show "files (snd (?body v st w)) = files w" for v st w
      by (rule files_reads_within [where A = "\<lambda>op. True"])
        (intro reads_within_bnd reads_within_lift reads_within_anything_loadtxt)
    show "fst (?body v st w) = Inl e \<longleftrightarrow>
        fst (loadtxt (quencher_path v) 9 (start (files w))) = Inl e \<or>
        (\<exists>d. fst (loadtxt (quencher_path v) 9 (start (files w))) = Inr d \<and>
           unpack_columns d = Inl e)"
      for v st w
      unfolding fst_loadtxt_files [of _ _ w, symmetric] by (auto simp: io_bnd_Inl_iff)
    show "(\<exists>st'. fst (?body v st w) = Inr st') \<longleftrightarrow>
        (\<exists>d tF. fst (loadtxt (quencher_path v) 9 (start (files w))) = Inr d \<and>
           unpack_columns d = Inr tF)"
      for v st w
      unfolding fst_loadtxt_files [of _ _ w, symmetric] by (auto simp: io_bnd_Inr_iff)
  qed
  then show ?thesis
    unfolding cell_plot_raw_def fst_loadtxt_files [of _ _ w, symmetric] .
qed

lemma cell_single_args_Inl_iff:
  "fst (cell_single_args w) = Inl e \<longleftrightarrow>
     fst (read_pickle pickle_path w) = Inl e \<or>
     (\<exists>df. fst (read_pickle pickle_path w) = Inr df \<and> dict_get df 0.0 = Inl e)"
  by (auto simp: cell_single_args_def io_bnd_Inl_iff)

lemma append_dataset_Inl_iff:
  "fst (append_dataset data conc st w) = Inl e \<longleftrightarrow> dict_get data conc = Inl e"
  by (cases st) (auto simp: append_dataset_def io_bnd_Inl_iff)

lemma append_dataset_Inr_iff:
  "(\<exists>st'. fst (append_dataset data conc st w) = Inr st') \<longleftrightarrow> (\<exists>ds. dict_get data conc = Inr ds)"
  by (cases st) (auto simp: append_dataset_def io_bnd_Inr_iff)

lemma cell_global_args_Inl_iff:
  "fst (cell_global_args w) = Inl e \<longleftrightarrow>
     fst (read_pickle pickle_path w) = Inl e \<or>
     (\<exists>data. fst (read_pickle pickle_path w) = Inr data \<and>
        (\<exists>j<length data.
           (\<forall>i<j. \<exists>ds. dict_get data (fst (data ! i)) = Inr ds) \<and>
           dict_get data (fst (data ! j)) = Inl e))"
proof -
  have loop: "fst (for_loop (map fst data) (append_dataset data) st w') = Inl e \<longleftrightarrow>
      (\<exists>j<length data.
           (\<forall>i<j. \<exists>ds. dict_get data (fst (data ! i)) = Inr ds) \<and>
           dict_get data (fst (data ! j)) = Inl e)" for data st w'
  proof -
    have "fst (for_loop (map fst data) (append_dataset data) st w') = Inl e \<longleftrightarrow>
      (\<exists>j<length (map fst data).
         (\<forall>i<j. (\<lambda>fs v. \<exists>ds. dict_get data v = Inr ds) (files w') (map fst data ! i)) \<and>
         (\<lambda>fs v. dict_get data v = Inl e) (files w') (map fst data ! j))"
    proof (rule for_loop_Inl_iff)
      show "files (snd (append_dataset data v st w)) = files w" for v st w
        by (rule files_reads_within [where A = "\<lambda>op. True"]) (rule reads_within_append_dataset)
      show "fst (append_dataset data v st w) = Inl e \<longleftrightarrow> dict_get data v = Inl e" for v st w
        by (rule append_dataset_Inl_iff)
      show "(\<exists>st'. fst (append_dataset data v st w) = Inr st') \<longleftrightarrow>
          (\<exists>ds. dict_get data v = Inr ds)" for v st w
        by (rule append_dataset_Inr_iff)
    qed
    then show ?thesis
      by (simp cong: conj_cong)
  qed
  show ?thesis
    by (auto simp: cell_global_args_def io_bnd_Inl_iff loop split: prod.splits)
qed

lemma discard_Inl_iff: "fst (discard m w) = Inl e \<longleftrightarrow> fst (m w) = Inl e"
  by (auto simp: discard_def io_bnd_Inl_iff)

lemma run_cells_Inl_iff:
  "fst (run_cells (c # cs) w) = Inl e \<longleftrightarrow>
     fst (c w) = Inl e \<or> (fst (c w) = Inr () \<and> fst (run_cells cs (snd (c w))) = Inl e)"
  by (auto simp: io_bnd_Inl_iff)

text \<open>
  Claim C7. Nothing the notebook defines handles an exception: a function or a cell
  raises an exception exactly when one of the calls it makes raises it, the calls before
  having returned, so that the exception of a call is never turned into a value or into
  another exception. This is said of every call of every function and cell: the four
  model functions that index their parameters (the model handed to \<^verbatim>\<open>curve_fit\<close> makes no
  call that can raise), the two residual functions with the body and the loop of the
  global one (which fails at its first failing dataset), \<^verbatim>\<open>error_analysis\<close>, the
  preprocessing, and the cells that load, pickle and read back, whose loops fail at the
  first concentration whose file fails.
\<close>

theorem sub_call_errors_propagate:
  "(func_single x param = Inl e \<longleftrightarrow>
     getitem param 0 = Inl e \<or> (\<exists>a. getitem param 0 = Inr a \<and> getitem param 1 = Inl e))
   \<and> (leastsq_function_single param args = Inl e \<longleftrightarrow>
     getitem args 1 = Inl e \<or>
     (\<exists>y. getitem args 1 = Inr y \<and>
       (getitem args 0 = Inl e \<or>
       (\<exists>x. getitem args 0 = Inr x \<and>
         (func_single x param = Inl e \<or>
         (\<exists>fx. func_single x param = Inr fx \<and>
           (np_binop (-) y fx = Inl e \<or>
           (\<exists>d. np_binop (-) y fx = Inr d \<and>
             (getitem args 2 = Inl e \<or>
             (\<exists>yerr. getitem args 2 = Inr yerr \<and> np_binop (/) d yerr = Inl e))))))))))
   \<and> (func_global x param = Inl e \<longleftrightarrow>
     getitem param 0 = Inl e \<or>
     (\<exists>a. getitem param 0 = Inr a \<and>
       (getitem param 1 = Inl e \<or>
       (\<exists>b. getitem param 1 = Inr b \<and>
         (getitem param 3 = Inl e \<or>
         (\<exists>m. getitem param 3 = Inr m \<and>
           (getitem param 2 = Inl e \<or>
           (\<exists>c. getitem param 2 = Inr c \<and>
              np_binop (+) (div_scalar (np_neg x) b)
                (scalar_mul m (np_expm1 (scalar_mul (- c) x))) = Inl e))))))))
   \<and> (func_linearized x param = Inl e \<longleftrightarrow>
     getitem param 0 = Inl e \<or>
     (\<exists>a. getitem param 0 = Inr a \<and>
       (getitem param 1 = Inl e \<or>
       (\<exists>b. getitem param 1 = Inr b \<and>
         (getitem param 3 = Inl e \<or>
         (\<exists>m. getitem param 3 = Inr m \<and>
           (getitem param 2 = Inl e \<or>
           (\<exists>c. getitem param 2 = Inr c \<and>
              np_binop (+) (scalar_sub a (div_scalar x b))
                (scalar_mul m (np_expm1 (scalar_mul (- c) x))) = Inl e))))))))
   \<and> (residuals_of f p largs i m = Inl e \<longleftrightarrow>
     getitem p 0 = Inl e \<or>
     (\<exists>pa. getitem p 0 = Inr pa \<and>
       (getitem p 1 = Inl e \<or>
       (\<exists>pb. getitem p 1 = Inr pb \<and>
         (getitem p 2 = Inl e \<or>
         (\<exists>pc. getitem p 2 = Inr pc \<and>
           (getitem largs 1 = Inl e \<or>
           (\<exists>ally. getitem largs 1 = Inr ally \<and>
             (getitem ally i = Inl e \<or>
             (\<exists>y. getitem ally i = Inr y \<and>
               (getitem largs 0 = Inl e \<or>
               (\<exists>allx. getitem largs 0 = Inr allx \<and>
                 (getitem allx i = Inl e \<or>
                 (\<exists>x. getitem allx i = Inr x \<and>
                   (f x [pa, pb, pc, m] = Inl e \<or>
                   (\<exists>fx. f x [pa, pb, pc, m] = Inr fx \<and>
                     (np_binop (-) y fx = Inl e \<or>
                     (\<exists>d. np_binop (-) y fx = Inr d \<and>
                       (getitem largs 2 = Inl e \<or>
                       (\<exists>allyerr. getitem largs 2 = Inr allyerr \<and>
                         (getitem allyerr i = Inl e \<or>
                         (\<exists>yerr. getitem allyerr i = Inr yerr \<and>
                            np_binop (/) d yerr = Inl e))))))))))))))))))))))
   \<and> (leastsq_function_with f p largs = Inl e \<longleftrightarrow>
     (\<exists>j<length (drop 3 p).
        (\<forall>i<j. \<exists>r. residuals_of f p largs i (drop 3 p ! i) = Inr r) \<and>
        residuals_of f p largs j (drop 3 p ! j) = Inl e))
   \<and> (leastsq_function_global p largs = Inl e \<longleftrightarrow>
     (\<exists>j<length (drop 3 p).
        (\<forall>i<j. \<exists>r. residuals_of func_global p largs i (drop 3 p ! i) = Inr r) \<and>
        residuals_of func_global p largs j (drop 3 p ! j) = Inl e))
   \<and> (error_analysis svd res = Inl e \<longleftrightarrow>
     svd (res_jac res) = Inl e \<or>
     (\<exists>U s VT. svd (res_jac res) = Inr (U, s, VT) \<and>
       (getitem s 0 = Inl e \<or>
       (\<exists>sa. getitem s 0 = Inr sa \<and>
         (mat_div_vec
            (mat_T (take_rows (length (retained s (threshold_of (res_jac res) sa))) VT))
            (map (\<lambda>v. v ^ 2) (retained s (threshold_of (res_jac res) sa))) = Inl e \<or>
         (\<exists>A. mat_div_vec
            (mat_T (take_rows (length (retained s (threshold_of (res_jac res) sa))) VT))
            (map (\<lambda>v. v ^ 2) (retained s (threshold_of (res_jac res) sa))) = Inr A \<and>
            np_dot A (take_rows (length (retained s (threshold_of (res_jac res) sa))) VT)
              = Inl e))))))
   \<and> (discard_before_max d = Inl e \<longleftrightarrow>
     rows2d d = Inl e \<or>
     (\<exists>rs. rows2d d = Inr rs \<and>
       (np_max (map snd rs) = Inl e \<or>
       (\<exists>m. np_max (map snd rs) = Inr m \<and>
         (np_binop (\<lambda>a b. b < a) (map fst rs) (map fst (filter (\<lambda>r. snd r = m) rs)) = Inl e \<or>
         (\<exists>keep. np_binop (\<lambda>a b. b < a) (map fst rs)
                    (map fst (filter (\<lambda>r. snd r = m) rs)) = Inr keep \<and>
            bool_index rs keep = Inl e))))))
   \<and> (dataset_of rs = Inl e \<longleftrightarrow> getitem rs 0 = Inl e)
   \<and> (preprocess d = Inl e \<longleftrightarrow>
     discard_before_max d = Inl e \<or>
     (\<exists>rs. discard_before_max d = Inr rs \<and> dataset_of rs = Inl e))
   \<and> (fst (load_dataset conc data w) = Inl e \<longleftrightarrow>
     fst (loadtxt (quencher_path conc) 9 w) = Inl e \<or>
     (\<exists>d. fst (loadtxt (quencher_path conc) 9 w) = Inr d \<and> preprocess d = Inl e))
   \<and> (fst (cell_plot_raw w) = Inl e \<longleftrightarrow>
     (\<exists>j<length concs.
        (\<forall>i<j. \<exists>d tF. fst (loadtxt (quencher_path (concs ! i)) 9 w) = Inr d \<and>
                  unpack_columns d = Inr tF) \<and>
        (fst (loadtxt (quencher_path (concs ! j)) 9 w) = Inl e \<or>
         (\<exists>d. fst (loadtxt (quencher_path (concs ! j)) 9 w) = Inr d \<and>
            unpack_columns d = Inl e))))
   \<and> (fst (cell_plot_shifted w) = Inl e \<longleftrightarrow>
     (\<exists>j<length concs.
        (\<forall>i<j. \<exists>d ds. fst (loadtxt (quencher_path (concs ! i)) 9 w) = Inr d \<and>
                  preprocess d = Inr ds) \<and>
        (fst (loadtxt (quencher_path (concs ! j)) 9 w) = Inl e \<or>
         (\<exists>d. fst (loadtxt (quencher_path (concs ! j)) 9 w) = Inr d \<and> preprocess d = Inl e))))
   \<and> (fst (cell_pickle w) = Inl e \<longleftrightarrow>
     (\<exists>j<length concs.
        (\<forall>i<j. \<exists>d ds. fst (loadtxt (quencher_path (concs ! i)) 9 w) = Inr d \<and>
                  preprocess d = Inr ds) \<and>
        (fst (loadtxt (quencher_path (concs ! j)) 9 w) = Inl e \<or>
         (\<exists>d. fst (loadtxt (quencher_path (concs ! j)) 9 w) = Inr d \<and> preprocess d = Inl e))))
   \<and> (fst (cell_single_args w) = Inl e \<longleftrightarrow>
     fst (read_pickle pickle_path w) = Inl e \<or>
     (\<exists>df. fst (read_pickle pickle_path w) = Inr df \<and> dict_get df 0.0 = Inl e))
   \<and> (fst (cell_global_args w) = Inl e \<longleftrightarrow>
     fst (read_pickle pickle_path w) = Inl e \<or>
     (\<exists>df. fst (read_pickle pickle_path w) = Inr df \<and>
        (\<exists>j<length df.
           (\<forall>i<j. \<exists>ds. dict_get df (fst (df ! i)) = Inr ds) \<and>
           dict_get df (fst (df ! j)) = Inl e)))
   \<and> (fst (discard cell w) = Inl e \<longleftrightarrow> fst (cell w) = Inl e)
   \<and> (fst (run_cells (cl # cs) w) = Inl e \<longleftrightarrow>
     fst (cl w) = Inl e \<or> (fst (cl w) = Inr () \<and> fst (run_cells cs (snd (cl w))) = Inl e))"
  by (intro conjI func_single_Inl_iff leastsq_function_single_Inl_iff func_global_Inl_iff
      func_linearized_Inl_iff residuals_of_Inl_iff leastsq_function_with_Inl_iff
      leastsq_function_global_Inl_iff error_analysis_Inl_full discard_before_max_Inl_iff
      dataset_of_Inl_iff preprocess_Inl_iff load_dataset_Inl_iff cell_plot_raw_Inl_iff
      cell_plot_shifted_Inl_iff cell_pickle_Inl_iff cell_single_args_Inl_iff
      cell_global_args_Inl_iff discard_Inl_iff run_cells_Inl_iff)

text \<open>A failing call for each part; among them a missing \<^verbatim>\<open>args[2]\<close> and an empty \<open>s\<close>.\<close>

theorem sub_call_errors_propagate_witness:
  "func_single [0] [3] = Inl IndexError
   \<and> leastsq_function_single [3, 1] [[0], [1]] = Inl IndexError
   \<and> leastsq_function_single [3, 1] [[0, 1, 2], [1, 2], [1, 1]] = Inl ValueError
   \<and> func_global [0] [1, 2, 3] = Inl IndexError
   \<and> func_linearized [0] [1] = Inl IndexError
   \<and> residuals_of func_global [3, 2, 0, 5] [[[0]], [[1]]] 0 5 = Inl IndexError
   \<and> leastsq_function_with func_global [3, 2, 0, 5, 7]
        [[[0], [0, 1, 2]], [[4], [5, 9]], [[1], [2, 3]]] = Inl ValueError
   \<and> leastsq_function_global [3, 2, 0, 5, 7]
        [[[0], [0, 1, 2]], [[4], [5, 9]], [[1], [2, 3]]] = Inl ValueError
   \<and> error_analysis (\<lambda>J. Inl LinAlgError)
        \<lparr>res_x = [150, 3000], res_cost = 5 / 2, res_fun = [1, 2, 0],
         res_jac = \<lparr>ncols = 2, rows = [[2, 0], [0, 1], [0, 0]]\<rparr>\<rparr> = Inl LinAlgError
   \<and> error_analysis (\<lambda>J. Inr (\<lparr>ncols = 0, rows = [[]]\<rparr>, [], \<lparr>ncols = 0, rows = []\<rparr>))
        \<lparr>res_x = [], res_cost = 0, res_fun = [0],
         res_jac = \<lparr>ncols = 0, rows = [[]]\<rparr>\<rparr> = Inl IndexError
   \<and> discard_before_max (Array2 [(0, 1), (1, 1), (2, 0)]) = Inl ValueError
   \<and> dataset_of [] = Inl IndexError
   \<and> preprocess (Array2 [(0, 1), (1, 5)]) = Inl IndexError
   \<and> fst (load_dataset 0 [] (start (\<lambda>p. None))) = Inl OSError
   \<and> fst (cell_plot_raw (start (\<lambda>p. None))) = Inl OSError
   \<and> fst (cell_plot_shifted (start (\<lambda>p. None))) = Inl OSError
   \<and> fst (cell_pickle (start (\<lambda>p. None))) = Inl OSError
   \<and> fst (cell_single_args (start (\<lambda>p. None))) = Inl OSError
   \<and> fst (cell_global_args (start (\<lambda>p. None))) = Inl OSError
   \<and> fst (discard cell_pickle (start (\<lambda>p. None))) = Inl OSError
   \<and> fst (run_cells [cell_plot_raw, cell_plot_shifted] (start (\<lambda>p. None))) = Inl OSError"
proof -
  note t1 = sub_call_errors_propagate [THEN conjunct2]
  note r1 = sub_call_errors_propagate [THEN conjunct1]
  note r2 = t1 [THEN conjunct1]
  note t2 = t1 [THEN conjunct2]
  note r3 = t2 [THEN conjunct1]
  note t3 = t2 [THEN conjunct2]
  note r4 = t3 [THEN conjunct1]
  note t4 = t3 [THEN conjunct2]
  note r5 = t4 [THEN conjunct1]
  note t5 = t4 [THEN conjunct2]
  note r6 = t5 [THEN conjunct1]
  note t6 = t5 [THEN conjunct2]
  note r7 = t6 [THEN conjunct1]
  note t7 = t6 [THEN conjunct2]
  note r8 = t7 [THEN conjunct1]
  note t8 = t7 [THEN conjunct2]
  note r9 = t8 [THEN conjunct1]
  note t9 = t8 [THEN conjunct2]
  note r10 = t9 [THEN conjunct1]
  note t10 = t9 [THEN conjunct2]
  note r11 = t10 [THEN conjunct1]
  note t11 = t10 [THEN conjunct2]
  note r12 = t11 [THEN conjunct1]
  note t12 = t11 [THEN conjunct2]
  note r13 = t12 [THEN conjunct1]
  note t13 = t12 [THEN conjunct2]
  note r14 = t13 [THEN conjunct1]
  note t14 = t13 [THEN conjunct2]
  note r15 = t14 [THEN conjunct1]
  note t15 = t14 [THEN conjunct2]
  note r16 = t15 [THEN conjunct1]
  note t16 = t15 [THEN conjunct2]
  note r17 = t16 [THEN conjunct1]
  note t17 = t16 [THEN conjunct2]
  note r18 = t17 [THEN conjunct1]
  note t18 = t17 [THEN conjunct2]
  note r19 = t18
  have missing: "fst (loadtxt (quencher_path c) 9 (start (\<lambda>p. None))) = Inl OSError" for c
    by (simp add: loadtxt_def start_def)
  have first: "\<exists>j<length concs. (\<forall>i<j. P i) \<and> Q j" if "Q 0" for P Q
    using that by (intro exI [of _ 0]) (simp add: concs_def)
  have no_pickle: "fst (read_pickle pickle_path (start (\<lambda>p. None))) = Inl OSError"
    by (simp add: read_pickle_def start_def)
  have second: "\<exists>j<length (drop 3 [3, 2, 0, 5, 7 :: real]). (\<forall>i<j. P i) \<and> Q j"
    if "P 0" and "Q 1" for P Q
    using that by (intro exI [of _ 1]) simp
  have ok: "residuals_of func_global [3, 2, 0, 5, 7]
        [[[0], [0, 1, 2]], [[4], [5, 9]], [[1], [2, 3]]] 0 5 = Inr [1]"
    by (simp add: residuals_of_def func_global_four expm1_def)
  have bad: "residuals_of func_global [3, 2, 0, 5, 7]
        [[[0], [0, 1, 2]], [[4], [5, 9]], [[1], [2, 3]]] 1 7 = Inl ValueError"
    by (simp add: residuals_of_def func_global_four np_binop_def)
  have loop: "\<exists>j<length (drop 3 [3, 2, 0, 5, 7 :: real]).
        (\<forall>i<j. \<exists>r. residuals_of func_global [3, 2, 0, 5, 7]
            [[[0], [0, 1, 2]], [[4], [5, 9]], [[1], [2, 3]]] i (drop 3 [3, 2, 0, 5, 7] ! i) = Inr r) \<and>
        residuals_of func_global [3, 2, 0, 5, 7]
            [[[0], [0, 1, 2]], [[4], [5, 9]], [[1], [2, 3]]] j (drop 3 [3, 2, 0, 5, 7] ! j)
          = Inl ValueError"
    using ok bad by (intro exI [of _ 1]) simp
  have kept: "discard_before_max (Array2 [(0, 1), (1, 5)]) = Inr []"
    by (simp add: discard_before_max_def rows2d_def np_max_def np_binop_def bool_index_def)
  show ?thesis
  proof (intro conjI)
    show "func_single [0] [3] = Inl IndexError"
      by (rule r1 [THEN iffD2]) simp
    show "leastsq_function_single [3, 1] [[0], [1]] = Inl IndexError"
      by (rule r2 [THEN iffD2]) (simp add: func_single_two)
    show "leastsq_function_single [3, 1] [[0, 1, 2], [1, 2], [1, 1]] = Inl ValueError"
      by (rule r2 [THEN iffD2]) (simp add: func_single_two np_binop_def)
    show "func_global [0] [1, 2, 3] = Inl IndexError"
      by (rule r3 [THEN iffD2]) simp
    show "func_linearized [0] [1] = Inl IndexError"
      by (rule r4 [THEN iffD2]) simp
    show "residuals_of func_global [3, 2, 0, 5] [[[0]], [[1]]] 0 5 = Inl IndexError"
      by (rule r5 [THEN iffD2]) (simp add: func_global_four)
    show "leastsq_function_with func_global [3, 2, 0, 5, 7]
        [[[0], [0, 1, 2]], [[4], [5, 9]], [[1], [2, 3]]] = Inl ValueError"
      by (rule r6 [THEN iffD2]) (rule loop)
    show "leastsq_function_global [3, 2, 0, 5, 7]
        [[[0], [0, 1, 2]], [[4], [5, 9]], [[1], [2, 3]]] = Inl ValueError"
      by (rule r7 [THEN iffD2]) (rule loop)
    show "error_analysis (\<lambda>J. Inl LinAlgError)
        \<lparr>res_x = [150, 3000], res_cost = 5 / 2, res_fun = [1, 2, 0],
         res_jac = \<lparr>ncols = 2, rows = [[2, 0], [0, 1], [0, 0]]\<rparr>\<rparr> = Inl LinAlgError"
      by (rule r8 [THEN iffD2]) simp
    show "error_analysis (\<lambda>J. Inr (\<lparr>ncols = 0, rows = [[]]\<rparr>, [], \<lparr>ncols = 0, rows = []\<rparr>))
        \<lparr>res_x = [], res_cost = 0, res_fun = [0],
         res_jac = \<lparr>ncols = 0, rows = [[]]\<rparr>\<rparr> = Inl IndexError"
      by (rule r8 [THEN iffD2]) simp
    show "discard_before_max (Array2 [(0, 1), (1, 1), (2, 0)]) = Inl ValueError"
      by (rule r9 [THEN iffD2]) (simp add: rows2d_def np_max_def np_binop_def)
    show "dataset_of [] = Inl IndexError"
      by (rule r10 [THEN iffD2]) simp
    show "preprocess (Array2 [(0, 1), (1, 5)]) = Inl IndexError"
      by (rule r11 [THEN iffD2]) (simp add: kept dataset_of_empty)
    show "fst (load_dataset 0 [] (start (\<lambda>p. None))) = Inl OSError"
      by (rule r12 [THEN iffD2]) (simp add: missing)
    show "fst (cell_plot_raw (start (\<lambda>p. None))) = Inl OSError"
      by (rule r13 [THEN iffD2], rule first) (simp add: missing)
    show "fst (cell_plot_shifted (start (\<lambda>p. None))) = Inl OSError"
      by (rule r14 [THEN iffD2], rule first) (simp add: missing)
    show pickle: "fst (cell_pickle (start (\<lambda>p. None))) = Inl OSError"
      by (rule r15 [THEN iffD2], rule first) (simp add: missing)
    show "fst (cell_single_args (start (\<lambda>p. None))) = Inl OSError"
      by (rule r16 [THEN iffD2]) (simp add: no_pickle)
    show "fst (cell_global_args (start (\<lambda>p. None))) = Inl OSError"
      by (rule r17 [THEN iffD2]) (simp add: no_pickle)
    show "fst (discard cell_pickle (start (\<lambda>p. None))) = Inl OSError"
      by (rule r18 [THEN iffD2]) (rule pickle)
    show "fst (run_cells [cell_plot_raw, cell_plot_shifted] (start (\<lambda>p. None))) = Inl OSError"
      by (rule r19 [THEN iffD2], rule disjI1, rule r13 [THEN iffD2], rule first)
        (simp add: missing)
  qed
qed

end
